theory Spec2Isabelle
  imports
    Complex_Main
    "HOL-Library.Sublist"
    "HOL-Library.Char_ord"
    "HOL-Library.List_Lexorder"
    "HOL-Library.Multiset"
begin

section \<open>Strings and arrays of the host language\<close>

text \<open>
  A JavaScript string is a \<^typ>\<open>string\<close>, a character standing for a code unit; the
  functions below are the string and array methods the sources call (\<open>startsWith\<close> is
  \<^const>\<open>prefix\<close>).
\<close>

text \<open>\<open>String.prototype.includes\<close>: the second string occurs in the first.\<close>

fun str_includes :: "string \<Rightarrow> string \<Rightarrow> bool" where
  "str_includes [] sub = (sub = [])"
| "str_includes (c # cs) sub = (prefix sub (c # cs) \<or> str_includes cs sub)"

text \<open>\<open>String.prototype.endsWith\<close>.\<close>

definition endsWith :: "string \<Rightarrow> string \<Rightarrow> bool" where
  "endsWith s t = suffix t s"

text \<open>\<open>String.prototype.split\<close> at one separator character.\<close>

fun splitOn :: "char \<Rightarrow> string \<Rightarrow> string list" where
  "splitOn sep [] = [[]]"
| "splitOn sep (c # cs) =
     (if c = sep then [] # splitOn sep cs
      else (case splitOn sep cs of [] \<Rightarrow> [[c]] | s # ss \<Rightarrow> (c # s) # ss))"

text \<open>\<open>Array.prototype.join\<close>.\<close>

fun join :: "string \<Rightarrow> string list \<Rightarrow> string" where
  "join sep [] = []"
| "join sep [s] = s"
| "join sep (s # t # ss) = s @ sep @ join sep (t # ss)"

text \<open>
  \<open>Array.prototype.sort\<close> with a comparison function: the sort is stable, and for a
  consistent comparison function its result is the stable insertion sort below.
\<close>

fun insertBy :: "('a \<Rightarrow> 'a \<Rightarrow> int) \<Rightarrow> 'a \<Rightarrow> 'a list \<Rightarrow> 'a list" where
  "insertBy cmp x [] = [x]"
| "insertBy cmp x (y # ys) =
     (if cmp x y \<le> 0 then x # y # ys else y # insertBy cmp x ys)"

definition sortBy :: "('a \<Rightarrow> 'a \<Rightarrow> int) \<Rightarrow> 'a list \<Rightarrow> 'a list" where
  "sortBy cmp xs = foldr (insertBy cmp) xs []"

text \<open>
  A comparison function is consistent when exchanging its arguments exchanges the sign of
  its result, and it is transitive;
  \<open>String.prototype.localeCompare\<close>, the collation of the host, is one.
\<close>

definition consistentCompare :: "('a \<Rightarrow> 'a \<Rightarrow> int) \<Rightarrow> bool" where
  "consistentCompare cmp \<longleftrightarrow>
     (\<forall>a b. cmp a b \<le> 0 \<longleftrightarrow> 0 \<le> cmp b a) \<and>
     (\<forall>a b c. cmp a b \<le> 0 \<and> cmp b c \<le> 0 \<longrightarrow> cmp a c \<le> 0)"

text \<open>Comparison of strings by code units, the collation of the examples.\<close>

definition codeUnitCompare :: "string \<Rightarrow> string \<Rightarrow> int" where
  "codeUnitCompare a b = (if a < b then - 1 else if a = b then 0 else 1)"

text \<open>
  A collation that, like the collation of the host, orders the letters without regard to
  their case, so that \<open>a\<close> comes before \<open>Z\<close>.
\<close>

definition lowerChar :: "char \<Rightarrow> char" where
  "lowerChar c =
     (if CHR ''A'' \<le> c \<and> c \<le> CHR ''Z'' then char_of (of_char c + (32 :: nat)) else c)"

definition caseFoldCompare :: "string \<Rightarrow> string \<Rightarrow> int" where
  "caseFoldCompare a b = codeUnitCompare (map lowerChar a) (map lowerChar b)"

section \<open>Paths (\<open>node:path\<close>, POSIX)\<close>

definition isAbsolute :: "string \<Rightarrow> bool" where
  "isAbsolute p = (case p of [] \<Rightarrow> False | c # _ \<Rightarrow> c = CHR ''/'')"

text \<open>
  \<open>normalizeString\<close> of \<open>node:path\<close>, segment by segment: the segments kept so far are
  a stack (last segment first). An empty segment and \<open>.\<close> are dropped; \<open>..\<close> removes the
  last segment kept unless there is none or it is \<open>..\<close> itself, and is then kept only
  when the path may climb above its root.
\<close>

fun normalizeStep :: "bool \<Rightarrow> string list \<Rightarrow> string \<Rightarrow> string list" where
  "normalizeStep allowAboveRoot res seg =
     (if seg = [] \<or> seg = ''.'' then res
      else if seg = ''..'' then
        (case res of
           [] \<Rightarrow> if allowAboveRoot then [''..''] else []
         | s # rest \<Rightarrow>
             if s = ''..'' then (if allowAboveRoot then ''..'' # res else res)
             else rest)
      else seg # res)"

definition normalizeString :: "string \<Rightarrow> bool \<Rightarrow> string" where
  "normalizeString p allowAboveRoot =
     join ''/'' (rev (foldl (normalizeStep allowAboveRoot) [] (splitOn CHR ''/'' p)))"

definition normalize_path :: "string \<Rightarrow> string" where
  "normalize_path p =
     (if p = [] then ''.''
      else
        let isAbs = (hd p = CHR ''/'');
            trailingSeparator = (last p = CHR ''/'');
            s = normalizeString p (\<not> isAbs)
        in if s = [] then (if isAbs then ''/'' else if trailingSeparator then ''./'' else ''.'')
           else
             let s' = (if trailingSeparator then s @ ''/'' else s)
             in if isAbs then ''/'' @ s' else s')"

text \<open>
  \<open>resolve\<close>: the arguments are taken from the last to the first, then the working
  directory, until an absolute one has been prepended.
\<close>

fun resolveLoop :: "string list \<Rightarrow> string \<Rightarrow> string \<times> bool" where
  "resolveLoop [] resolvedPath = (resolvedPath, False)"
| "resolveLoop (p # ps) resolvedPath =
     (if p = [] then resolveLoop ps resolvedPath
      else if hd p = CHR ''/'' then (p @ ''/'' @ resolvedPath, True)
      else resolveLoop ps (p @ ''/'' @ resolvedPath))"

definition resolve :: "string \<Rightarrow> string list \<Rightarrow> string" where
  "resolve cwd args =
     (case resolveLoop (rev args @ [cwd]) [] of
        (resolvedPath, resolvedAbsolute) \<Rightarrow>
          let s = normalizeString resolvedPath (\<not> resolvedAbsolute)
          in if resolvedAbsolute then ''/'' @ s
             else if s \<noteq> [] then s else ''.'')"

text \<open>
  \<open>dirname\<close>: the scan from the end skips the trailing separators and the last
  segment; \<open>end\<close> is the index of the separator before that segment.
\<close>

definition dirname :: "string \<Rightarrow> string" where
  "dirname p =
     (if p = [] then ''.''
      else
        let hasRoot = (hd p = CHR ''/'');
            r = dropWhile (\<lambda>c. c \<noteq> CHR ''/'')
                  (dropWhile (\<lambda>c. c = CHR ''/'') (rev (tl p)));
            end = length r
        in if r = [] then (if hasRoot then ''/'' else ''.'')
           else if hasRoot \<and> end = 1 then ''//''
           else take end p)"

section \<open>Path safety (\<open>behavior/verifyEvidence.ts\<close>)\<close>

record PathCheck =
  valid :: bool
  reason :: "string option"

definition validateRelativePath :: "string \<Rightarrow> PathCheck" where
  "validateRelativePath p =
     (if p = [] then \<lparr>valid = False, reason = Some ''Path is empty''\<rparr>
      else if isAbsolute p then \<lparr>valid = False, reason = Some ''Absolute paths not allowed''\<rparr>
      else
        let normalized = normalize_path p
        in if prefix ''..'' normalized \<or> str_includes normalized ''/..''
              \<or> str_includes normalized [CHR 0x5C, CHR ''.'', CHR ''.'']
           then \<lparr>valid = False, reason = Some ''Path traversal not allowed''\<rparr>
           else if str_includes p [CHR 0x00]
           then \<lparr>valid = False, reason = Some ''Null bytes not allowed in path''\<rparr>
           else \<lparr>valid = True, reason = None\<rparr>)"

text \<open>The working directory \<open>cwd\<close> is what \<open>process.cwd()\<close> returns.\<close>

definition safeJoin :: "string \<Rightarrow> string \<Rightarrow> string \<Rightarrow> string option" where
  "safeJoin cwd baseDir relativePath =
     (let base = resolve cwd [baseDir];
          joined = resolve cwd [base, relativePath]
      in if \<not> prefix (base @ ''/'') joined \<and> joined \<noteq> base then None
         else Some joined)"

text \<open>The paths the containment property speaks of: a \<open>..\<close> segment between separators.\<close>

definition containsDotDotSegment :: "string \<Rightarrow> bool" where
  "containsDotDotSegment p \<longleftrightarrow> ''..'' \<in> set (splitOn CHR ''/'' p)"

section \<open>Values of the host language\<close>

text \<open>
  What \<open>JSON.parse\<close> returns. An object is the list of its own properties; reading a
  property takes the first binding of the key (\<^const>\<open>map_of\<close>), and \<open>undefined\<close>, the value
  of a property that is absent, is \<^const>\<open>None\<close>. A number is a rational: the rounding of
  the host's doubles is outside this model.
\<close>

datatype json =
    JNull
  | JBool bool
  | JNum rat
  | JStr string
  | JArr "json list"
  | JObj "(string \<times> json) list"

subsection \<open>Numbers and strings as text\<close>

definition digit :: "nat \<Rightarrow> char" where
  "digit d = char_of (48 + d)"

fun showNat :: "nat \<Rightarrow> string" where
  "showNat n = (if n < 10 then [digit n] else showNat (n div 10) @ [digit (n mod 10)])"

declare showNat.simps [simp del]

definition showInt :: "int \<Rightarrow> string" where
  "showInt i = (if i < 0 then ''-'' @ showNat (nat (- i)) else showNat (nat i))"

fun fracDigits :: "nat \<Rightarrow> rat \<Rightarrow> string" where
  "fracDigits 0 f = []"
| "fracDigits (Suc k) f =
     (if f = 0 then []
      else let d = \<lfloor>f * 10\<rfloor> in digit (nat d) # fracDigits k (f * 10 - of_int d))"

text \<open>
  The text of a number in a template literal and in \<open>JSON.stringify\<close>: the host prints
  the shortest decimal that reads back as the same double, which for an integer below
  \<open>10\<^sup>2\<^sup>1\<close> and for a short decimal fraction such as \<open>0.1\<close> or \<open>0.8\<close> is the decimal
  expansion printed here.
\<close>

definition showNum :: "rat \<Rightarrow> string" where
  "showNum r =
     (let i = \<lfloor>\<bar>r\<bar>\<rfloor>; f = \<bar>r\<bar> - of_int i
      in (if r < 0 then ''-'' else []) @ showNat (nat i)
         @ (if f = 0 then [] else ''.'' @ fracDigits 20 f))"

definition hexDigit :: "nat \<Rightarrow> char" where
  "hexDigit d = (if d < 10 then char_of (48 + d) else char_of (87 + d))"

definition escapeChar :: "char \<Rightarrow> string" where
  "escapeChar c =
     (if c = CHR 0x22 then [CHR 0x5C, CHR 0x22]
      else if c = CHR 0x5C then [CHR 0x5C, CHR 0x5C]
      else if c = CHR 0x08 then [CHR 0x5C, CHR ''b'']
      else if c = CHR 0x0C then [CHR 0x5C, CHR ''f'']
      else if c = CHR 0x0A then [CHR 0x5C, CHR ''n'']
      else if c = CHR 0x0D then [CHR 0x5C, CHR ''r'']
      else if c = CHR 0x09 then [CHR 0x5C, CHR ''t'']
      else if (of_char c :: nat) < 32
        then [CHR 0x5C, CHR ''u'', CHR ''0'', CHR ''0'',
              hexDigit (of_char c div 16), hexDigit (of_char c mod 16)]
      else [c])"

text \<open>\<open>JSON.stringify\<close> of a string: the quoted, escaped text.\<close>

definition quote :: "string \<Rightarrow> string" where
  "quote s = [CHR 0x22] @ concat (map escapeChar s) @ [CHR 0x22]"

text \<open>\<open>JSON.stringify\<close> without indentation.\<close>

fun stringify :: "json \<Rightarrow> string" where
  "stringify JNull = ''null''"
| "stringify (JBool b) = (if b then ''true'' else ''false'')"
| "stringify (JNum r) = showNum r"
| "stringify (JStr s) = quote s"
| "stringify (JArr xs) = ''['' @ join '','' (map stringify xs) @ '']''"
| "stringify (JObj kvs) =
     ''{'' @ join '','' (map (\<lambda>kv. quote (fst kv) @ '':'' @ stringify (snd kv)) kvs) @ ''}''"

subsection \<open>Canonical serialization and hashing (\<open>utils/canonical.ts\<close>)\<close>

text \<open>
  Modelled from the spec: the key sorting inside \<open>canonicalJson\<close> of \<open>utils/canonical.ts\<close>,
  which is not among the sources. The specification: "object keys sorted lexicographically
  at every nesting level".
\<close>

fun sortKeysDeep :: "json \<Rightarrow> json" where
  "sortKeysDeep (JArr xs) = JArr (map sortKeysDeep xs)"
| "sortKeysDeep (JObj kvs) = JObj (sort_key fst (map (map_prod id sortKeysDeep) kvs))"
| "sortKeysDeep v = v"

text \<open>
  Modelled from the spec: \<open>canonicalJson\<close> of \<open>utils/canonical.ts\<close>, which is not among
  the sources. The specification: "canonical serialization means: object keys sorted
  lexicographically at every nesting level, no whitespace, UTF-8 encoding".
\<close>

definition canonicalJson :: "json \<Rightarrow> string" where
  "canonicalJson v = stringify (sortKeysDeep v)"

section \<open>The environment of a run\<close>

text \<open>
  The file system, the library functions and the working directory, as the code reads
  them. \<open>statSync\<close> and \<open>readFileSync\<close> throw on failure: the left summand is the message
  of the error thrown. The content of a file is its text. \<open>sha256Hex\<close> is the digest
  function of \<open>utils/canonical.ts\<close>, \<open>JSON_parse\<close> is \<open>JSON.parse\<close> (\<^const>\<open>None\<close> when it
  throws), \<open>isDatetime\<close> is the pattern behind the schema library's \<open>datetime()\<close> and
  \<open>localeCompare\<close> is the collation of the host.
\<close>

record Env =
  processCwd :: string
  existsSync :: "string \<Rightarrow> bool"
  statSync :: "string \<Rightarrow> string + nat"
  readFileSync :: "string \<Rightarrow> string + string"
  sha256Hex :: "string \<Rightarrow> string"
  JSON_parse :: "string \<Rightarrow> json option"
  isDatetime :: "string \<Rightarrow> bool"
  localeCompare :: "string \<Rightarrow> string \<Rightarrow> int"

section \<open>Manifest schema (\<open>integrations/solverReceiptV0.ts\<close>)\<close>

subsection \<open>The schema library\<close>

text \<open>
  A schema maps a value (or \<open>undefined\<close>) to the parsed data or to the messages of the
  issues found. An object schema parses every key of its shape, in the order of the shape,
  and collects the issues of all of them; keys outside the shape are dropped.
\<close>

type_synonym 'a parsed = "string list + 'a"

fun ap :: "('a \<Rightarrow> 'b) parsed \<Rightarrow> 'a parsed \<Rightarrow> 'b parsed" where
  "ap (Inr f) (Inr x) = Inr (f x)"
| "ap (Inr f) (Inl e) = Inl e"
| "ap (Inl e) (Inr x) = Inl e"
| "ap (Inl e) (Inl e') = Inl (e @ e')"

fun collect :: "'a parsed list \<Rightarrow> 'a list parsed" where
  "collect [] = Inr []"
| "collect (r # rs) = ap (ap (Inr (#)) r) (collect rs)"

definition typeName :: "json option \<Rightarrow> string" where
  "typeName x =
     (case x of
        None \<Rightarrow> ''undefined''
      | Some JNull \<Rightarrow> ''null''
      | Some (JBool _) \<Rightarrow> ''boolean''
      | Some (JNum _) \<Rightarrow> ''number''
      | Some (JStr _) \<Rightarrow> ''string''
      | Some (JArr _) \<Rightarrow> ''array''
      | Some (JObj _) \<Rightarrow> ''object'')"

definition invalidType :: "string \<Rightarrow> json option \<Rightarrow> string" where
  "invalidType expected x =
     (if x = None then ''Required''
      else ''Expected '' @ expected @ '', received '' @ typeName x)"

definition zString :: "json option \<Rightarrow> string parsed" where
  "zString x = (case x of Some (JStr s) \<Rightarrow> Inr s | _ \<Rightarrow> Inl [invalidType ''string'' x])"

definition zStringCheck :: "(string \<Rightarrow> bool) \<Rightarrow> string \<Rightarrow> json option \<Rightarrow> string parsed" where
  "zStringCheck check msg x =
     (case x of
        Some (JStr s) \<Rightarrow> if check s then Inr s else Inl [msg]
      | _ \<Rightarrow> Inl [invalidType ''string'' x])"

definition zOptionalString :: "json option \<Rightarrow> string option parsed" where
  "zOptionalString x = (if x = None then Inr None else map_sum id Some (zString x))"

definition zBoolean :: "json option \<Rightarrow> bool parsed" where
  "zBoolean x = (case x of Some (JBool b) \<Rightarrow> Inr b | _ \<Rightarrow> Inl [invalidType ''boolean'' x])"

definition zLiteral :: "string \<Rightarrow> json option \<Rightarrow> string parsed" where
  "zLiteral v x =
     (if x = Some (JStr v) then Inr v
      else Inl [''Invalid literal value, expected '' @ quote v])"

text \<open>\<open>z.number().int().nonnegative()\<close>: both checks run, in this order.\<close>

definition zNumberIntNonnegative :: "json option \<Rightarrow> int parsed" where
  "zNumberIntNonnegative x =
     (case x of
        Some (JNum r) \<Rightarrow>
          let issues =
                (if r \<noteq> of_int \<lfloor>r\<rfloor> then [''Expected integer, received float''] else [])
                @ (if r < 0 then [''Number must be greater than or equal to 0''] else [])
          in if issues = [] then Inr \<lfloor>r\<rfloor> else Inl issues
      | _ \<Rightarrow> Inl [invalidType ''number'' x])"

definition zArray :: "(json option \<Rightarrow> 'a parsed) \<Rightarrow> json option \<Rightarrow> 'a list parsed" where
  "zArray element x =
     (case x of
        Some (JArr xs) \<Rightarrow> collect (map (\<lambda>v. element (Some v)) xs)
      | _ \<Rightarrow> Inl [invalidType ''array'' x])"

subsection \<open>The schemas\<close>

text \<open>The pattern \<open>/^[a-f0-9]{64}$/\<close>.\<close>

definition isHexLower :: "char \<Rightarrow> bool" where
  "isHexLower c \<longleftrightarrow>
     (CHR ''a'' \<le> c \<and> c \<le> CHR ''f'') \<or> (CHR ''0'' \<le> c \<and> c \<le> CHR ''9'')"

definition sha256Pattern :: "string \<Rightarrow> bool" where
  "sha256Pattern s \<longleftrightarrow> length s = 64 \<and> list_all isHexLower s"

record ArtifactEntry =
  path :: string
  sha256 :: string
  bytes :: int
  contentType :: string

text \<open>
  \<open>DeliveredArtifact\<close> has the four fields of \<open>ArtifactEntry\<close>: in the structural typing of
  the source they are one type.
\<close>

type_synonym DeliveredArtifact = ArtifactEntry

definition ArtifactEntrySchema :: "json option \<Rightarrow> ArtifactEntry parsed" where
  "ArtifactEntrySchema x =
     (case x of
        Some (JObj kvs) \<Rightarrow>
          ap (ap (ap (ap
            (Inr (\<lambda>p h b c. \<lparr>path = p, sha256 = h, bytes = b, contentType = c\<rparr>))
            (zString (map_of kvs ''path'')))
            (zStringCheck sha256Pattern ''Invalid'' (map_of kvs ''sha256'')))
            (zNumberIntNonnegative (map_of kvs ''bytes'')))
            (zString (map_of kvs ''contentType''))
      | _ \<Rightarrow> Inl [invalidType ''object'' x])"

record PolicyDecision =
  allowed :: bool
  reasons :: "string list"

definition PolicyDecisionSchema :: "json option \<Rightarrow> PolicyDecision parsed" where
  "PolicyDecisionSchema x =
     (case x of
        Some (JObj kvs) \<Rightarrow>
          ap (ap
            (Inr (\<lambda>a r. \<lparr>allowed = a, reasons = r\<rparr>))
            (zBoolean (map_of kvs ''allowed'')))
            (zArray zString (map_of kvs ''reasons''))
      | _ \<Rightarrow> Inl [invalidType ''object'' x])"

datatype Status = SUCCESS | FAILED | REFUSED

fun Status_name :: "Status \<Rightarrow> string" where
  "Status_name SUCCESS = ''SUCCESS''"
| "Status_name FAILED = ''FAILED''"
| "Status_name REFUSED = ''REFUSED''"

text \<open>
  \<open>z.enum(['SUCCESS', 'FAILED', 'REFUSED'])\<close>; \<open>enumValues\<close> is the list of the values as
  the library's messages print it.
\<close>

definition enumValues :: string where
  "enumValues =
     join '' | '' (map (\<lambda>v. [CHR 0x27] @ v @ [CHR 0x27]) [''SUCCESS'', ''FAILED'', ''REFUSED''])"

definition zStatus :: "json option \<Rightarrow> Status parsed" where
  "zStatus x =
     (case x of
        Some (JStr s) \<Rightarrow>
          if s = ''SUCCESS'' then Inr SUCCESS
          else if s = ''FAILED'' then Inr FAILED
          else if s = ''REFUSED'' then Inr REFUSED
          else Inl [''Invalid enum value. Expected '' @ enumValues @ '', received ''
                    @ [CHR 0x27] @ s @ [CHR 0x27]]
      | _ \<Rightarrow> Inl [invalidType enumValues x])"

record ExecutionSummary =
  status :: Status
  error :: "string option"

definition ExecutionSummarySchema :: "json option \<Rightarrow> ExecutionSummary parsed" where
  "ExecutionSummarySchema x =
     (case x of
        Some (JObj kvs) \<Rightarrow>
          ap (ap
            (Inr (\<lambda>s e. \<lparr>status = s, error = e\<rparr>))
            (zStatus (map_of kvs ''status'')))
            (zOptionalString (map_of kvs ''error''))
      | _ \<Rightarrow> Inl [invalidType ''object'' x])"

record SolverMetadata =
  service :: string
  serviceVersion :: string
  gitCommit :: "string option"

definition SolverMetadataSchema :: "json option \<Rightarrow> SolverMetadata parsed" where
  "SolverMetadataSchema x =
     (case x of
        Some (JObj kvs) \<Rightarrow>
          ap (ap (ap
            (Inr (\<lambda>s v g. \<lparr>service = s, serviceVersion = v, gitCommit = g\<rparr>))
            (zLiteral ''irsb-solver'' (map_of kvs ''service'')))
            (zString (map_of kvs ''serviceVersion'')))
            (zOptionalString (map_of kvs ''gitCommit''))
      | _ \<Rightarrow> Inl [invalidType ''object'' x])"

record SolverReceiptV0 =
  manifestVersion :: string
  intentId :: string
  runId :: string
  jobType :: string
  createdAt :: string
  artifacts :: "ArtifactEntry list"
  policyDecision :: PolicyDecision
  executionSummary :: ExecutionSummary
  solver :: SolverMetadata

text \<open>\<open>SolverReceiptV0Schema.safeParse\<close>; \<open>datetime\<close> is the library's date-time pattern.\<close>

definition SolverReceiptV0Schema ::
  "(string \<Rightarrow> bool) \<Rightarrow> json option \<Rightarrow> SolverReceiptV0 parsed" where
  "SolverReceiptV0Schema datetime x =
     (case x of
        Some (JObj kvs) \<Rightarrow>
          ap (ap (ap (ap (ap (ap (ap (ap (ap
            (Inr (\<lambda>v i r j c a p e s.
               \<lparr>manifestVersion = v, intentId = i, runId = r, jobType = j, createdAt = c,
                artifacts = a, policyDecision = p, executionSummary = e, solver = s\<rparr>))
            (zLiteral ''0.1.0'' (map_of kvs ''manifestVersion'')))
            (zString (map_of kvs ''intentId'')))
            (zString (map_of kvs ''runId'')))
            (zString (map_of kvs ''jobType'')))
            (zStringCheck datetime ''Invalid datetime'' (map_of kvs ''createdAt'')))
            (zArray ArtifactEntrySchema (map_of kvs ''artifacts'')))
            (PolicyDecisionSchema (map_of kvs ''policyDecision'')))
            (ExecutionSummarySchema (map_of kvs ''executionSummary'')))
            (SolverMetadataSchema (map_of kvs ''solver''))
      | _ \<Rightarrow> Inl [invalidType ''object'' x])"

subsection \<open>Normalized receipt\<close>

record NormalizedReceipt =
  receiptId :: string
  receiptVersion :: string
  intentId :: string
  runId :: string
  jobType :: string
  status :: Status
  manifestPath :: string
  manifestSha256 :: string
  delivered :: "DeliveredArtifact list"

text \<open>The comparison function \<open>(a, b) => a.path.localeCompare(b.path)\<close>.\<close>

definition byPath :: "Env \<Rightarrow> ArtifactEntry \<Rightarrow> ArtifactEntry \<Rightarrow> int" where
  "byPath env a b = localeCompare env (path a) (path b)"

definition normalizeReceipt :: "Env \<Rightarrow> SolverReceiptV0 \<Rightarrow> string \<Rightarrow> NormalizedReceipt" where
  "normalizeReceipt env manifest manifestSha256' =
     (let delivered' =
            map (\<lambda>a. \<lparr>path = path a, sha256 = sha256 a, bytes = bytes a,
                      contentType = contentType a\<rparr>)
              (sortBy (byPath env) (artifacts manifest));
          receiptId' = sha256Hex env
            (canonicalJson (JObj
               [(''intentId'', JStr (SolverReceiptV0.intentId manifest)),
                (''runId'', JStr (SolverReceiptV0.runId manifest)),
                (''jobType'', JStr (SolverReceiptV0.jobType manifest)),
                (''manifestSha256'', JStr manifestSha256')]))
      in \<lparr>receiptId = receiptId',
          receiptVersion = manifestVersion manifest,
          intentId = SolverReceiptV0.intentId manifest,
          runId = SolverReceiptV0.runId manifest,
          jobType = SolverReceiptV0.jobType manifest,
          status = ExecutionSummary.status (executionSummary manifest),
          manifestPath = ''evidence/manifest.json'',
          manifestSha256 = manifestSha256',
          delivered = delivered'\<rparr>)"

section \<open>Evidence verification (\<open>behavior/verifyEvidence.ts\<close>)\<close>

datatype FailureCode =
    ARTIFACT_HASH_MISMATCH
  | ARTIFACT_NOT_FOUND
  | ARTIFACT_SIZE_MISMATCH
  | ARTIFACT_TOO_LARGE
  | DELIVERED_MISMATCH
  | MANIFEST_HASH_MISMATCH
  | MANIFEST_NOT_FOUND
  | MANIFEST_PARSE_FAIL
  | MANIFEST_READ_ERROR
  | MANIFEST_SCHEMA_INVALID
  | MANIFEST_TOO_LARGE
  | UNSAFE_PATH

text \<open>A failure code is the string of its name.\<close>

fun FailureCode_name :: "FailureCode \<Rightarrow> string" where
  "FailureCode_name ARTIFACT_HASH_MISMATCH = ''ARTIFACT_HASH_MISMATCH''"
| "FailureCode_name ARTIFACT_NOT_FOUND = ''ARTIFACT_NOT_FOUND''"
| "FailureCode_name ARTIFACT_SIZE_MISMATCH = ''ARTIFACT_SIZE_MISMATCH''"
| "FailureCode_name ARTIFACT_TOO_LARGE = ''ARTIFACT_TOO_LARGE''"
| "FailureCode_name DELIVERED_MISMATCH = ''DELIVERED_MISMATCH''"
| "FailureCode_name MANIFEST_HASH_MISMATCH = ''MANIFEST_HASH_MISMATCH''"
| "FailureCode_name MANIFEST_NOT_FOUND = ''MANIFEST_NOT_FOUND''"
| "FailureCode_name MANIFEST_PARSE_FAIL = ''MANIFEST_PARSE_FAIL''"
| "FailureCode_name MANIFEST_READ_ERROR = ''MANIFEST_READ_ERROR''"
| "FailureCode_name MANIFEST_SCHEMA_INVALID = ''MANIFEST_SCHEMA_INVALID''"
| "FailureCode_name MANIFEST_TOO_LARGE = ''MANIFEST_TOO_LARGE''"
| "FailureCode_name UNSAFE_PATH = ''UNSAFE_PATH''"

text \<open>
  \<open>EvidenceLink\<close> is declared in \<open>schemas/index.ts\<close>, which is not among the sources: the
  record has the two fields the code writes.
\<close>

record EvidenceLink =
  type :: string
  ref :: string

record VerificationFailure =
  code :: FailureCode
  message :: string
  path :: "string option"

record VerificationResult =
  ok :: bool
  failures :: "VerificationFailure list"
  evidenceLinks :: "EvidenceLink list"

record VerifyOptions =
  maxManifestBytes :: "int option"
  maxArtifactBytes :: "int option"

definition DEFAULT_MAX_MANIFEST_BYTES :: int where
  "DEFAULT_MAX_MANIFEST_BYTES = 2 * 1024 * 1024"

definition DEFAULT_MAX_ARTIFACT_BYTES :: int where
  "DEFAULT_MAX_ARTIFACT_BYTES = 10 * 1024 * 1024"

text \<open>\<open>a.path ?? ''\<close>.\<close>

definition pathOrEmpty :: "VerificationFailure \<Rightarrow> string" where
  "pathOrEmpty f = (case path f of None \<Rightarrow> [] | Some p \<Rightarrow> p)"

text \<open>The comparison function of \<open>buildResult\<close>.\<close>

definition compareFailures :: "Env \<Rightarrow> VerificationFailure \<Rightarrow> VerificationFailure \<Rightarrow> int" where
  "compareFailures env a b =
     (let codeDiff = localeCompare env (FailureCode_name (code a)) (FailureCode_name (code b))
      in if codeDiff \<noteq> 0 then codeDiff
         else localeCompare env (pathOrEmpty a) (pathOrEmpty b))"

definition buildResult ::
  "Env \<Rightarrow> VerificationFailure list \<Rightarrow> EvidenceLink list \<Rightarrow> VerificationResult" where
  "buildResult env failures' evidenceLinks' =
     (let sorted = sortBy (compareFailures env) failures'
      in \<lparr>ok = (length sorted = 0), failures = sorted, evidenceLinks = evidenceLinks'\<rparr>)"

text \<open>
  The body of the loop over \<open>receipt.delivered\<close>: the failures and the evidence links
  collected so far are the state; each \<open>continue\<close> returns it at once.
\<close>

definition verifyArtifact ::
  "Env \<Rightarrow> string \<Rightarrow> int \<Rightarrow> VerificationFailure list \<times> EvidenceLink list \<Rightarrow> DeliveredArtifact
     \<Rightarrow> VerificationFailure list \<times> EvidenceLink list" where
  "verifyArtifact env runDir maxArtifactBytes' st artifact =
     (case st of (failures', evidenceLinks') \<Rightarrow>
      let artPathCheck = validateRelativePath (ArtifactEntry.path artifact)
      in if \<not> valid artPathCheck then
           (failures' @
              [\<lparr>code = UNSAFE_PATH,
                message = ''Artifact path unsafe: ''
                  @ (case reason artPathCheck of None \<Rightarrow> ''undefined'' | Some r \<Rightarrow> r),
                path = Some (ArtifactEntry.path artifact)\<rparr>],
            evidenceLinks')
         else
      (case safeJoin (processCwd env) runDir (ArtifactEntry.path artifact) of
         None \<Rightarrow>
           (failures' @
              [\<lparr>code = UNSAFE_PATH, message = ''Artifact path escapes run directory'',
                path = Some (ArtifactEntry.path artifact)\<rparr>],
            evidenceLinks')
       | Some artAbsPath \<Rightarrow>
      if artAbsPath = [] then
           (failures' @
              [\<lparr>code = UNSAFE_PATH, message = ''Artifact path escapes run directory'',
                path = Some (ArtifactEntry.path artifact)\<rparr>],
            evidenceLinks')
      else if \<not> existsSync env artAbsPath then
           (failures' @
              [\<lparr>code = ARTIFACT_NOT_FOUND,
                message = ''Artifact not found: '' @ ArtifactEntry.path artifact,
                path = Some (ArtifactEntry.path artifact)\<rparr>],
            evidenceLinks')
      else
      (case statSync env artAbsPath of
         Inl err \<Rightarrow>
           (failures' @
              [\<lparr>code = ARTIFACT_NOT_FOUND,
                message = ''Cannot stat artifact: '' @ ArtifactEntry.path artifact,
                path = Some (ArtifactEntry.path artifact)\<rparr>],
            evidenceLinks')
       | Inr artSize \<Rightarrow>
      if int artSize > maxArtifactBytes' then
           (failures' @
              [\<lparr>code = ARTIFACT_TOO_LARGE,
                message = ''Artifact '' @ showNat artSize @ '' bytes exceeds limit ''
                  @ showInt maxArtifactBytes',
                path = Some (ArtifactEntry.path artifact)\<rparr>],
            evidenceLinks')
      else
      let failures1 =
            (if int artSize \<noteq> bytes artifact then
               failures' @
                 [\<lparr>code = ARTIFACT_SIZE_MISMATCH,
                   message = ''Artifact size mismatch for '' @ ArtifactEntry.path artifact
                     @ '': expected '' @ showInt (bytes artifact) @ '', got '' @ showNat artSize,
                   path = Some (ArtifactEntry.path artifact)\<rparr>]
             else failures')
      in
      (case readFileSync env artAbsPath of
         Inl err \<Rightarrow>
           (failures1 @
              [\<lparr>code = ARTIFACT_NOT_FOUND,
                message = ''Cannot read artifact: '' @ ArtifactEntry.path artifact,
                path = Some (ArtifactEntry.path artifact)\<rparr>],
            evidenceLinks')
       | Inr artBytes \<Rightarrow>
      let actualArtHash = sha256Hex env artBytes;
          failures2 =
            (if actualArtHash \<noteq> sha256 artifact then
               failures1 @
                 [\<lparr>code = ARTIFACT_HASH_MISMATCH,
                   message = ''Artifact hash mismatch for '' @ ArtifactEntry.path artifact
                     @ '': expected '' @ sha256 artifact @ '', got '' @ actualArtHash,
                   path = Some (ArtifactEntry.path artifact)\<rparr>]
             else failures1)
      in (failures2, evidenceLinks' @ [\<lparr>type = ''artifactSha256'', ref = sha256 artifact\<rparr>])))))"

text \<open>
  Step 7 of \<open>verifyEvidence\<close>: the paths of both lists, sorted and joined by commas, are
  compared as strings.
\<close>

definition deliveredMatches :: "Env \<Rightarrow> SolverReceiptV0 \<Rightarrow> NormalizedReceipt \<Rightarrow> bool" where
  "deliveredMatches env manifest receipt =
     (let manifestArtifactsSorted = sortBy (byPath env) (artifacts manifest);
          deliveredSorted = sortBy (byPath env) (delivered receipt);
          manifestPaths = join '','' (map ArtifactEntry.path manifestArtifactsSorted);
          deliveredPaths = join '','' (map ArtifactEntry.path deliveredSorted)
      in manifestPaths = deliveredPaths)"

text \<open>
  Steps 1 to 6 of \<open>verifyEvidence\<close>: the failure with which the function returns at once,
  or the manifest parsed from the file.
\<close>

definition readManifest ::
  "Env \<Rightarrow> NormalizedReceipt \<Rightarrow> string \<Rightarrow> int \<Rightarrow> VerificationFailure + SolverReceiptV0" where
  "readManifest env receipt runDir maxManifestBytes' =
     (let manifestRelPath = manifestPath receipt;
          pathCheck = validateRelativePath manifestRelPath
      in if \<not> valid pathCheck then
           Inl \<lparr>code = UNSAFE_PATH,
                message = ''Manifest path unsafe: ''
                  @ (case reason pathCheck of None \<Rightarrow> ''undefined'' | Some r \<Rightarrow> r),
                path = Some manifestRelPath\<rparr>
         else
      (case safeJoin (processCwd env) runDir manifestRelPath of
         None \<Rightarrow>
           Inl \<lparr>code = UNSAFE_PATH, message = ''Manifest path escapes run directory'',
                path = Some manifestRelPath\<rparr>
       | Some manifestAbsPath \<Rightarrow>
      if manifestAbsPath = [] then
           Inl \<lparr>code = UNSAFE_PATH, message = ''Manifest path escapes run directory'',
                path = Some manifestRelPath\<rparr>
      else if \<not> existsSync env manifestAbsPath then
           Inl \<lparr>code = MANIFEST_NOT_FOUND,
                message = ''Manifest not found: '' @ manifestRelPath,
                path = Some manifestRelPath\<rparr>
      else
      (case statSync env manifestAbsPath of
         Inl err \<Rightarrow>
           Inl \<lparr>code = MANIFEST_READ_ERROR, message = ''Cannot stat manifest: '' @ err,
                path = Some manifestRelPath\<rparr>
       | Inr manifestSize \<Rightarrow>
      if int manifestSize > maxManifestBytes' then
           Inl \<lparr>code = MANIFEST_TOO_LARGE,
                message = ''Manifest '' @ showNat manifestSize @ '' bytes exceeds limit ''
                  @ showInt maxManifestBytes',
                path = Some manifestRelPath\<rparr>
      else
      (case readFileSync env manifestAbsPath of
         Inl err \<Rightarrow>
           Inl \<lparr>code = MANIFEST_READ_ERROR, message = ''Cannot read manifest: '' @ err,
                path = Some manifestRelPath\<rparr>
       | Inr manifestBytes \<Rightarrow>
      let actualManifestHash = sha256Hex env manifestBytes
      in if actualManifestHash \<noteq> manifestSha256 receipt then
           Inl \<lparr>code = MANIFEST_HASH_MISMATCH,
                message = ''Manifest hash mismatch: expected '' @ manifestSha256 receipt
                  @ '', got '' @ actualManifestHash,
                path = Some manifestRelPath\<rparr>
         else
      (case JSON_parse env manifestBytes of
         None \<Rightarrow>
           Inl \<lparr>code = MANIFEST_PARSE_FAIL, message = ''Manifest is not valid JSON'',
                path = Some manifestRelPath\<rparr>
       | Some manifestObj \<Rightarrow>
      (case SolverReceiptV0Schema (isDatetime env) (Some manifestObj) of
         Inl issues \<Rightarrow>
           Inl \<lparr>code = MANIFEST_SCHEMA_INVALID,
                message = ''Manifest schema invalid: '' @ join ''; '' issues,
                path = Some manifestRelPath\<rparr>
       | Inr manifest \<Rightarrow> Inr manifest))))))"

definition verifyEvidence ::
  "Env \<Rightarrow> NormalizedReceipt \<Rightarrow> string \<Rightarrow> VerifyOptions option \<Rightarrow> VerificationResult" where
  "verifyEvidence env receipt runDir options =
     (let maxManifestBytes' =
            (case Option.bind options maxManifestBytes of
               None \<Rightarrow> DEFAULT_MAX_MANIFEST_BYTES | Some n \<Rightarrow> n);
          maxArtifactBytes' =
            (case Option.bind options maxArtifactBytes of
               None \<Rightarrow> DEFAULT_MAX_ARTIFACT_BYTES | Some n \<Rightarrow> n);
          failures0 = [];
          evidenceLinks0 =
            [\<lparr>type = ''receiptId'', ref = receiptId receipt\<rparr>,
             \<lparr>type = ''manifestSha256'', ref = manifestSha256 receipt\<rparr>]
      in case readManifest env receipt runDir maxManifestBytes' of
           Inl failure \<Rightarrow> buildResult env (failures0 @ [failure]) evidenceLinks0
         | Inr manifest \<Rightarrow>
             let failures7 =
                   (if \<not> deliveredMatches env manifest receipt then
                      failures0 @
                        [\<lparr>code = DELIVERED_MISMATCH,
                          message = ''Receipt delivered[] does not match manifest artifacts'',
                          path = None\<rparr>]
                    else failures0)
             in case foldl (verifyArtifact env runDir maxArtifactBytes')
                       (failures7, evidenceLinks0) (delivered receipt) of
                  (failures8, evidenceLinks8) \<Rightarrow> buildResult env failures8 evidenceLinks8)"

section \<open>Signal derivation (\<open>behavior/deriveBehaviorSignals.ts\<close>)\<close>

text \<open>
  \<open>Signal\<close> and \<open>EvidenceLink\<close> are declared in \<open>schemas/index.ts\<close>, which is not among the
  sources: the records have the fields the code writes, and the severities are those of
  the specification.
\<close>

datatype Severity = LOW | HIGH | CRITICAL

fun Severity_name :: "Severity \<Rightarrow> string" where
  "Severity_name LOW = ''LOW''"
| "Severity_name HIGH = ''HIGH''"
| "Severity_name CRITICAL = ''CRITICAL''"

record SignalDef =
  signalId :: string
  severity :: Severity
  weight :: rat
  codes :: "FailureCode list"

definition SIGNAL_DEFS :: "SignalDef list" where
  "SIGNAL_DEFS =
     [\<lparr>signalId = ''BE_MANIFEST_NOT_FOUND'', severity = CRITICAL, weight = 1,
        codes = [MANIFEST_NOT_FOUND]\<rparr>,
      \<lparr>signalId = ''BE_MANIFEST_HASH_MISMATCH'', severity = CRITICAL, weight = 1,
        codes = [MANIFEST_HASH_MISMATCH]\<rparr>,
      \<lparr>signalId = ''BE_MANIFEST_PARSE_FAIL'', severity = HIGH, weight = 8 / 10,
        codes = [MANIFEST_PARSE_FAIL, MANIFEST_READ_ERROR]\<rparr>,
      \<lparr>signalId = ''BE_MANIFEST_SCHEMA_INVALID'', severity = HIGH, weight = 8 / 10,
        codes = [MANIFEST_SCHEMA_INVALID]\<rparr>,
      \<lparr>signalId = ''BE_MANIFEST_TOO_LARGE'', severity = HIGH, weight = 8 / 10,
        codes = [MANIFEST_TOO_LARGE]\<rparr>,
      \<lparr>signalId = ''BE_ARTIFACT_MISSING'', severity = CRITICAL, weight = 1,
        codes = [ARTIFACT_NOT_FOUND]\<rparr>,
      \<lparr>signalId = ''BE_ARTIFACT_HASH_MISMATCH'', severity = CRITICAL, weight = 1,
        codes = [ARTIFACT_HASH_MISMATCH]\<rparr>,
      \<lparr>signalId = ''BE_ARTIFACT_SIZE_MISMATCH'', severity = HIGH, weight = 8 / 10,
        codes = [ARTIFACT_SIZE_MISMATCH]\<rparr>,
      \<lparr>signalId = ''BE_UNSAFE_PATH'', severity = CRITICAL, weight = 1,
        codes = [UNSAFE_PATH]\<rparr>,
      \<lparr>signalId = ''BE_DELIVERED_MISMATCH'', severity = CRITICAL, weight = 1,
        codes = [DELIVERED_MISMATCH]\<rparr>]"

record Signal =
  signalId :: string
  severity :: Severity
  weight :: rat
  observedAt :: int
  evidence :: "EvidenceLink list"

text \<open>
  Modelled from the spec: the comparison function of \<open>sortEvidence\<close> of \<open>utils/sort.ts\<close>,
  which is not among the sources. The specification: evidence links are sorted "by
  \<open>(type, ref)\<close>"; the strings are compared as everywhere in the sources, by
  \<open>localeCompare\<close>.
\<close>

definition compareEvidence :: "Env \<Rightarrow> EvidenceLink \<Rightarrow> EvidenceLink \<Rightarrow> int" where
  "compareEvidence env a b =
     (let typeDiff = localeCompare env (type a) (type b)
      in if typeDiff \<noteq> 0 then typeDiff else localeCompare env (ref a) (ref b))"

text \<open>
  Modelled from the spec: \<open>sortEvidence\<close> of \<open>utils/sort.ts\<close>, which is not among the
  sources. The specification: "Evidence links are deduplicated/sorted before inclusion in
  signals (sort by \<open>(type, ref)\<close>)": of equal links one is kept, and the links kept are
  sorted.
\<close>

definition sortEvidence :: "Env \<Rightarrow> EvidenceLink list \<Rightarrow> EvidenceLink list" where
  "sortEvidence env links = sortBy (compareEvidence env) (remdups links)"

text \<open>
  The map \<open>failuresByCode\<close>: every failure is appended to the list stored under its code.
\<close>

definition addFailure ::
  "(FailureCode \<rightharpoonup> VerificationFailure list) \<Rightarrow> VerificationFailure
     \<Rightarrow> (FailureCode \<rightharpoonup> VerificationFailure list)" where
  "addFailure failuresByCode failure =
     (let existing = (case failuresByCode (code failure) of None \<Rightarrow> [] | Some fs \<Rightarrow> fs)
      in failuresByCode(code failure \<mapsto> existing @ [failure]))"

text \<open>\<open>f.path\<close> as a condition: the path is present and not the empty string.\<close>

definition hasPath :: "VerificationFailure \<Rightarrow> bool" where
  "hasPath f \<longleftrightarrow> path f \<noteq> None \<and> path f \<noteq> Some []"

text \<open>The body of the loop over \<open>SIGNAL_DEFS\<close>.\<close>

definition deriveSignal ::
  "Env \<Rightarrow> (FailureCode \<rightharpoonup> VerificationFailure list) \<Rightarrow> EvidenceLink list \<Rightarrow> int
     \<Rightarrow> Signal list \<Rightarrow> SignalDef \<Rightarrow> Signal list" where
  "deriveSignal env failuresByCode baseEvidence observedAt' signals def =
     (let matchingFailures =
            concat (map (\<lambda>c. case failuresByCode c of None \<Rightarrow> [] | Some fs \<Rightarrow> fs) (codes def))
      in if length matchingFailures = 0 then signals
         else
           let failureEvidence =
                 map (\<lambda>f. \<lparr>type = ''failurePath'', ref = pathOrEmpty f\<rparr>)
                   (filter hasPath matchingFailures)
           in signals @
                [\<lparr>signalId = SignalDef.signalId def,
                  severity = SignalDef.severity def,
                  weight = SignalDef.weight def,
                  observedAt = observedAt',
                  evidence = sortEvidence env (baseEvidence @ failureEvidence)\<rparr>])"

definition deriveBehaviorSignals ::
  "Env \<Rightarrow> VerificationResult \<Rightarrow> NormalizedReceipt \<Rightarrow> int \<Rightarrow> Signal list" where
  "deriveBehaviorSignals env result receipt observedAt' =
     (let signals = [];
          baseEvidence =
            [\<lparr>type = ''receiptId'', ref = receiptId receipt\<rparr>,
             \<lparr>type = ''manifestSha256'', ref = manifestSha256 receipt\<rparr>]
      in if ok result then
           signals @
             [\<lparr>signalId = ''BE_VERIFIED_OK'', severity = LOW, weight = 1 / 10,
               observedAt = observedAt',
               evidence = sortEvidence env (baseEvidence @ evidenceLinks result)\<rparr>]
         else
           let failuresByCode = foldl addFailure Map.empty (failures result)
           in foldl (deriveSignal env failuresByCode baseEvidence observedAt')
                signals SIGNAL_DEFS)"

section \<open>Ingest (\<open>behavior/ingestReceipt.ts\<close>)\<close>

text \<open>The objects handed to \<open>canonicalJson\<close>, with their properties in the order written.\<close>

definition evidenceLinkJson :: "EvidenceLink \<Rightarrow> json" where
  "evidenceLinkJson l = JObj [(''type'', JStr (type l)), (''ref'', JStr (ref l))]"

definition signalJson :: "Signal \<Rightarrow> json" where
  "signalJson s =
     JObj [(''signalId'', JStr (signalId s)),
           (''severity'', JStr (Severity_name (severity s))),
           (''weight'', JNum (weight s)),
           (''observedAt'', JNum (of_int (observedAt s))),
           (''evidence'', JArr (map evidenceLinkJson (evidence s)))]"

text \<open>
  Modelled from the spec: the comparison function of \<open>sortSignals\<close> of \<open>utils/sort.ts\<close>,
  which is not among the sources. The specification: a "stable order by \<open>signalId\<close> then
  \<open>observedAt\<close> then serialized evidence".
\<close>

definition compareSignals :: "Env \<Rightarrow> Signal \<Rightarrow> Signal \<Rightarrow> int" where
  "compareSignals env a b =
     (let idDiff = localeCompare env (signalId a) (signalId b)
      in if idDiff \<noteq> 0 then idDiff
         else if observedAt a \<noteq> observedAt b then observedAt a - observedAt b
         else localeCompare env
                (canonicalJson (JArr (map evidenceLinkJson (evidence a))))
                (canonicalJson (JArr (map evidenceLinkJson (evidence b)))))"

text \<open>
  Modelled from the spec: \<open>sortSignals\<close> of \<open>utils/sort.ts\<close>, which is not among the
  sources. The specification: "always sort the final signal list (stable order by
  \<open>signalId\<close> then \<open>observedAt\<close> then serialized evidence, or equivalent total order)".
\<close>

definition sortSignals :: "Env \<Rightarrow> Signal list \<Rightarrow> Signal list" where
  "sortSignals env signals = sortBy (compareSignals env) signals"

definition safeParseManifest :: "Env \<Rightarrow> string \<Rightarrow> string + SolverReceiptV0" where
  "safeParseManifest env rawBytes =
     (case JSON_parse env rawBytes of
        None \<Rightarrow> Inl ''Invalid JSON''
      | Some obj \<Rightarrow>
          (case SolverReceiptV0Schema (isDatetime env) (Some obj) of
             Inl issues \<Rightarrow> Inl (join ''; '' issues)
           | Inr data \<Rightarrow> Inr data))"

definition inferRunDir :: "string \<Rightarrow> string" where
  "inferRunDir absReceiptPath =
     (let dir = dirname absReceiptPath;
          parent = dirname dir
      in if endsWith dir ''/evidence'' \<or> endsWith dir ([CHR 0x5C] @ ''evidence'') then parent
         else dir)"

text \<open>
  The snapshot \<open>ingestReceipt\<close> hands to \<open>insertSnapshot\<close>, and the fields of its result
  that do not come from the scoring.
\<close>

record Snapshot =
  snapshotId :: string
  agentId :: string
  observedAt :: int
  signals :: "Signal list"

record IngestResult =
  receiptId :: string
  snapshotId :: string
  ok :: bool

text \<open>The argument of the digest that is the snapshot id.\<close>

definition snapshotIdInput :: "string \<Rightarrow> Signal list \<Rightarrow> string" where
  "snapshotIdInput agentId' signals' =
     canonicalJson (JObj [(''agentId'', JStr agentId'),
                          (''signals'', JArr (map signalJson signals'))])"

text \<open>
  Steps 1 to 8 of \<open>ingestReceipt\<close>; \<open>now\<close> is what \<open>Date.now()\<close> returns, and the left
  summand is the error \<open>readFileSync\<close> throws. The store and the scoring of steps 9 to 12
  are outside this development.
\<close>

definition ingestReceipt ::
  "Env \<Rightarrow> int \<Rightarrow> string \<Rightarrow> string \<Rightarrow> string option \<Rightarrow> string + IngestResult \<times> Snapshot" where
  "ingestReceipt env now agentId' receiptPath runDir =
     (let observedAt' = now div 1000;
          absReceiptPath = resolve (processCwd env) [receiptPath]
      in case readFileSync env absReceiptPath of
           Inl err \<Rightarrow> Inl err
         | Inr rawBytes \<Rightarrow>
             let manifestSha256' = sha256Hex env rawBytes;
                 (signals1, receiptId', ok') =
                   (case safeParseManifest env rawBytes of
                      Inl parseError \<Rightarrow>
                        ([\<lparr>signalId = ''BE_RECEIPT_SCHEMA_INVALID'', severity = HIGH,
                           weight = 8 / 10, Signal.observedAt = observedAt',
                           evidence =
                             [\<lparr>type = ''manifestSha256'', ref = manifestSha256'\<rparr>,
                              \<lparr>type = ''parseError'', ref = parseError\<rparr>]\<rparr>],
                         sha256Hex env
                           (canonicalJson (JObj
                              [(''intentId'', JStr ''unknown''),
                               (''runId'', JStr ''unknown''),
                               (''jobType'', JStr ''unknown''),
                               (''manifestSha256'', JStr manifestSha256')])),
                         False)
                    | Inr data \<Rightarrow>
                        let receipt = normalizeReceipt env data manifestSha256';
                            effectiveRunDir =
                              (case runDir of
                                 None \<Rightarrow> inferRunDir absReceiptPath | Some d \<Rightarrow> d);
                            result = verifyEvidence env receipt effectiveRunDir None
                        in (deriveBehaviorSignals env result receipt observedAt',
                            NormalizedReceipt.receiptId receipt,
                            VerificationResult.ok result));
                 signals2 = sortSignals env signals1;
                 snapshotId' = sha256Hex env (snapshotIdInput agentId' signals2)
             in Inr (\<lparr>receiptId = receiptId', snapshotId = snapshotId', ok = ok'\<rparr>,
                     \<lparr>Snapshot.snapshotId = snapshotId', agentId = agentId',
                      observedAt = observedAt', signals = signals2\<rparr>))"

section \<open>A run directory for the examples\<close>

text \<open>
  The run of the repository's runbook: the manifest declares one artifact,
  \<open>artifacts/report.txt\<close>, of five bytes; the file on disk has been replaced by another
  text. The digest of the examples maps a text to sixty-four copies of one hexadecimal
  digit (the length of the text modulo sixteen), and their date-time pattern accepts the
  one time stamp used.
\<close>

definition exampleDoc :: json where
  "exampleDoc =
     JObj [(''manifestVersion'', JStr ''0.1.0''),
           (''intentId'', JStr ''intent-001''),
           (''runId'', JStr ''run-001''),
           (''jobType'', JStr ''diagnostic''),
           (''createdAt'', JStr ''2025-01-15T12:00:00Z''),
           (''artifacts'',
              JArr [JObj [(''path'', JStr ''artifacts/report.txt''),
                          (''sha256'', JStr (replicate 64 CHR ''a'')),
                          (''bytes'', JNum 5),
                          (''contentType'', JStr ''text/plain'')]]),
           (''policyDecision'', JObj [(''allowed'', JBool True), (''reasons'', JArr [])]),
           (''executionSummary'', JObj [(''status'', JStr ''SUCCESS'')]),
           (''solver'',
              JObj [(''service'', JStr ''irsb-solver''),
                    (''serviceVersion'', JStr ''1.0.0'')])]"

definition exampleArtifact :: DeliveredArtifact where
  "exampleArtifact =
     \<lparr>ArtifactEntry.path = ''artifacts/report.txt'', sha256 = replicate 64 CHR ''a'', bytes = 5,
      contentType = ''text/plain''\<rparr>"

definition exampleManifest :: SolverReceiptV0 where
  "exampleManifest =
     \<lparr>manifestVersion = ''0.1.0'', intentId = ''intent-001'', runId = ''run-001'',
      jobType = ''diagnostic'', createdAt = ''2025-01-15T12:00:00Z'',
      artifacts = [exampleArtifact],
      policyDecision = \<lparr>allowed = True, reasons = []\<rparr>,
      executionSummary = \<lparr>ExecutionSummary.status = SUCCESS, error = None\<rparr>,
      solver = \<lparr>service = ''irsb-solver'', serviceVersion = ''1.0.0'', gitCommit = None\<rparr>\<rparr>"

definition exampleManifestText :: string where
  "exampleManifestText = stringify exampleDoc"

definition exampleDigest :: "string \<Rightarrow> string" where
  "exampleDigest s = replicate 64 (hexDigit (length s mod 16))"

text \<open>
  The environment of a run directory \<open>/run\<close> whose manifest file is the text of the document
  \<open>doc\<close>, with the other files given by their absolute paths and contents.
\<close>

definition exampleRun :: "json \<Rightarrow> (string \<times> string) list \<Rightarrow> Env" where
  "exampleRun doc files =
     (let disk = (''/run/evidence/manifest.json'', stringify doc) # files
      in \<lparr>processCwd = ''/work'',
          existsSync = (\<lambda>p. map_of disk p \<noteq> None),
          statSync = (\<lambda>p. case map_of disk p of
                            None \<Rightarrow> Inl ''ENOENT: no such file or directory''
                          | Some content \<Rightarrow> Inr (length content)),
          readFileSync = (\<lambda>p. case map_of disk p of
                            None \<Rightarrow> Inl ''ENOENT: no such file or directory''
                          | Some content \<Rightarrow> Inr content),
          sha256Hex = exampleDigest,
          JSON_parse = (\<lambda>s. if s = stringify doc then Some doc else None),
          isDatetime = (\<lambda>s. s = ''2025-01-15T12:00:00Z''),
          localeCompare = codeUnitCompare\<rparr>)"

definition exampleEnv :: Env where
  "exampleEnv = exampleRun exampleDoc [(''/run/artifacts/report.txt'', ''tampered'')]"

text \<open>The receipt of the example manifest; its id is a digest of the examples.\<close>

definition exampleReceipt :: NormalizedReceipt where
  "exampleReceipt =
     \<lparr>NormalizedReceipt.receiptId = replicate 64 CHR ''6'',
      receiptVersion = ''0.1.0'',
      intentId = ''intent-001'',
      runId = ''run-001'',
      jobType = ''diagnostic'',
      status = SUCCESS,
      manifestPath = ''evidence/manifest.json'',
      manifestSha256 = exampleDigest exampleManifestText,
      delivered = [exampleArtifact]\<rparr>"

section \<open>The orderings and conditions of the properties\<close>

text \<open>
  The lexicographic ordering of the pairs (code, path or the empty string when the path is
  absent), the strings being compared by \<open>lc\<close>: the codes decide, and the paths decide
  among equal codes. With \<^const>\<open>codeUnitCompare\<close> for \<open>lc\<close> it is the lexicographic ordering
  of the strings themselves.
\<close>

definition failureLe ::
  "(string \<Rightarrow> string \<Rightarrow> int) \<Rightarrow> VerificationFailure \<Rightarrow> VerificationFailure \<Rightarrow> bool" where
  "failureLe lc a b \<longleftrightarrow>
     lc (FailureCode_name (code a)) (FailureCode_name (code b)) < 0 \<or>
     (lc (FailureCode_name (code a)) (FailureCode_name (code b)) = 0 \<and>
      lc (case path a of None \<Rightarrow> [] | Some p \<Rightarrow> p)
         (case path b of None \<Rightarrow> [] | Some p \<Rightarrow> p) \<le> 0)"

text \<open>The signal ids of the deriver: \<open>BE_VERIFIED_OK\<close> and the ids of \<open>SIGNAL_DEFS\<close>.\<close>

definition behaviorSignalIds :: "string list" where
  "behaviorSignalIds = ''BE_VERIFIED_OK'' # map SignalDef.signalId SIGNAL_DEFS"

text \<open>The failures of a result with a given code, the signals with a given id, the links of a given type.\<close>

definition failuresWithCode :: "FailureCode \<Rightarrow> VerificationResult \<Rightarrow> VerificationFailure list" where
  "failuresWithCode c result = filter (\<lambda>f. code f = c) (failures result)"

definition signalsWithId :: "string \<Rightarrow> Signal list \<Rightarrow> Signal list" where
  "signalsWithId i sigs = filter (\<lambda>s. Signal.signalId s = i) sigs"

definition linksOfType :: "string \<Rightarrow> EvidenceLink list \<Rightarrow> EvidenceLink list" where
  "linksOfType t links = filter (\<lambda>l. type l = t) links"

text \<open>
  A result with two failures of the code \<open>ARTIFACT_HASH_MISMATCH\<close>, one of them without a
  path.
\<close>

definition exampleCollapseResult :: VerificationResult where
  "exampleCollapseResult =
     \<lparr>VerificationResult.ok = False,
      failures =
        [\<lparr>code = ARTIFACT_HASH_MISMATCH, message = ''first'', path = Some ''a.txt''\<rparr>,
         \<lparr>code = ARTIFACT_HASH_MISMATCH, message = ''second'', path = None\<rparr>],
      evidenceLinks = []\<rparr>"

text \<open>
  For the proofs: the list stored under a code in \<open>failuresByCode\<close>, and what one pass of
  the loop over \<open>SIGNAL_DEFS\<close> appends to the signals, in terms of the failures themselves.
\<close>

definition getList ::
  "(FailureCode \<rightharpoonup> VerificationFailure list) \<Rightarrow> FailureCode \<Rightarrow> VerificationFailure list" where
  "getList m c = (case m c of None \<Rightarrow> [] | Some fs \<Rightarrow> fs)"

definition signalOf ::
  "Env \<Rightarrow> VerificationFailure list \<Rightarrow> EvidenceLink list \<Rightarrow> int \<Rightarrow> SignalDef \<Rightarrow> Signal list" where
  "signalOf env fs base t def =
     (let matching = concat (map (\<lambda>c. filter (\<lambda>f. code f = c) fs) (codes def))
      in if matching = [] then []
         else [\<lparr>signalId = SignalDef.signalId def, severity = SignalDef.severity def,
                 weight = SignalDef.weight def, observedAt = t,
                 evidence = sortEvidence env
                   (base @ map (\<lambda>f. \<lparr>type = ''failurePath'', ref = pathOrEmpty f\<rparr>)
                             (filter hasPath matching))\<rparr>])"

text \<open>
  For the proofs: the limits \<open>verifyEvidence\<close> takes from its options, and what one pass of
  the loop over \<open>receipt.delivered\<close> appends to the failures and to the evidence links.
\<close>

definition manifestLimit :: "VerifyOptions option \<Rightarrow> int" where
  "manifestLimit options =
     (case Option.bind options maxManifestBytes of
        None \<Rightarrow> DEFAULT_MAX_MANIFEST_BYTES | Some n \<Rightarrow> n)"





text \<open>
  A run whose manifest declares the single artifact \<open>a,b\<close>, and a receipt for that manifest
  whose \<open>delivered\<close> list names the two artifacts \<open>a\<close> and \<open>b\<close>; no artifact file is on disk.
\<close>

definition commaDoc :: json where
  "commaDoc =
     JObj [(''manifestVersion'', JStr ''0.1.0''),
           (''intentId'', JStr ''intent-001''),
           (''runId'', JStr ''run-001''),
           (''jobType'', JStr ''diagnostic''),
           (''createdAt'', JStr ''2025-01-15T12:00:00Z''),
           (''artifacts'',
              JArr [JObj [(''path'', JStr ''a,b''),
                          (''sha256'', JStr (replicate 64 CHR ''a'')),
                          (''bytes'', JNum 5),
                          (''contentType'', JStr ''text/plain'')]]),
           (''policyDecision'', JObj [(''allowed'', JBool True), (''reasons'', JArr [])]),
           (''executionSummary'', JObj [(''status'', JStr ''SUCCESS'')]),
           (''solver'',
              JObj [(''service'', JStr ''irsb-solver''),
                    (''serviceVersion'', JStr ''1.0.0'')])]"

definition commaManifest :: SolverReceiptV0 where
  "commaManifest =
     exampleManifest\<lparr>artifacts :=
       [\<lparr>ArtifactEntry.path = ''a,b'', sha256 = replicate 64 CHR ''a'', bytes = 5,
         contentType = ''text/plain''\<rparr>]\<rparr>"

definition commaEnv :: Env where
  "commaEnv = exampleRun commaDoc []"

definition commaReceipt :: NormalizedReceipt where
  "commaReceipt =
     exampleReceipt
       \<lparr>manifestSha256 := exampleDigest (stringify commaDoc),
        delivered :=
          [\<lparr>ArtifactEntry.path = ''a'', sha256 = replicate 64 CHR ''a'', bytes = 5,
            contentType = ''text/plain''\<rparr>,
           \<lparr>ArtifactEntry.path = ''b'', sha256 = replicate 64 CHR ''a'', bytes = 5,
            contentType = ''text/plain''\<rparr>]\<rparr>"

text \<open>The paths of a list of artifacts, sorted as \<open>verifyEvidence\<close> sorts them.\<close>

definition sortedPaths :: "Env \<Rightarrow> ArtifactEntry list \<Rightarrow> string list" where
  "sortedPaths env as = map ArtifactEntry.path (sortBy (byPath env) as)"

text \<open>
  The argument of the digest that is the snapshot id of a call of \<open>ingestReceipt\<close>, when
  the call returns.
\<close>

definition ingestSnapshotIdInput ::
  "Env \<Rightarrow> int \<Rightarrow> string \<Rightarrow> string \<Rightarrow> string option \<Rightarrow> string option" where
  "ingestSnapshotIdInput env now agentId' receiptPath runDir =
     (case ingestReceipt env now agentId' receiptPath runDir of
        Inl err \<Rightarrow> None
      | Inr (result, snapshot) \<Rightarrow> Some (snapshotIdInput agentId' (signals snapshot)))"

section \<open>The contract of the manifest\<close>

text \<open>Reading a property of a value: \<open>undefined\<close> when the value is not an object.\<close>

definition field :: "json \<Rightarrow> string \<Rightarrow> json option" where
  "field v k = (case v of JObj kvs \<Rightarrow> map_of kvs k | _ \<Rightarrow> None)"

text \<open>
  The declared contract, on a parsed manifest: the literals, the pattern of the hashes,
  the sign of the sizes. That a size is an integer and a status one of the three literals
  is in the types of the record.
\<close>

definition conformsContract :: "(string \<Rightarrow> bool) \<Rightarrow> SolverReceiptV0 \<Rightarrow> bool" where
  "conformsContract datetime m \<longleftrightarrow>
     manifestVersion m = ''0.1.0'' \<and>
     datetime (createdAt m) \<and>
     list_all (\<lambda>a. sha256Pattern (sha256 a) \<and> 0 \<le> bytes a) (artifacts m) \<and>
     service (solver m) = ''irsb-solver''"

text \<open>A parsed manifest holds what the document holds, field by field.\<close>

definition artifactReflects :: "json \<Rightarrow> ArtifactEntry \<Rightarrow> bool" where
  "artifactReflects j a \<longleftrightarrow>
     field j ''path'' = Some (JStr (ArtifactEntry.path a)) \<and>
     field j ''sha256'' = Some (JStr (sha256 a)) \<and>
     field j ''bytes'' = Some (JNum (of_int (bytes a))) \<and>
     field j ''contentType'' = Some (JStr (contentType a))"

definition reflects :: "json \<Rightarrow> SolverReceiptV0 \<Rightarrow> bool" where
  "reflects d m \<longleftrightarrow>
     field d ''manifestVersion'' = Some (JStr (manifestVersion m)) \<and>
     field d ''intentId'' = Some (JStr (SolverReceiptV0.intentId m)) \<and>
     field d ''runId'' = Some (JStr (SolverReceiptV0.runId m)) \<and>
     field d ''jobType'' = Some (JStr (SolverReceiptV0.jobType m)) \<and>
     field d ''createdAt'' = Some (JStr (createdAt m)) \<and>
     (case field d ''artifacts'' of
        Some (JArr as) \<Rightarrow> list_all2 artifactReflects as (artifacts m)
      | _ \<Rightarrow> False) \<and>
     (case field d ''policyDecision'' of
        Some p \<Rightarrow>
          field p ''allowed'' = Some (JBool (allowed (policyDecision m))) \<and>
          field p ''reasons'' = Some (JArr (map JStr (reasons (policyDecision m))))
      | None \<Rightarrow> False) \<and>
     (case field d ''executionSummary'' of
        Some e \<Rightarrow>
          field e ''status''
            = Some (JStr (Status_name (ExecutionSummary.status (executionSummary m)))) \<and>
          field e ''error'' = map_option JStr (error (executionSummary m))
      | None \<Rightarrow> False) \<and>
     (case field d ''solver'' of
        Some s \<Rightarrow>
          field s ''service'' = Some (JStr (service (solver m))) \<and>
          field s ''serviceVersion'' = Some (JStr (serviceVersion (solver m))) \<and>
          field s ''gitCommit'' = map_option JStr (gitCommit (solver m))
      | None \<Rightarrow> False)"

text \<open>
  The deviations from the contract that the specification lists: a wrong version literal,
  an artifact whose hash is not a string of the pattern or whose size is not a
  non-negative integer, a status that is not one of the three literals, a wrong service
  literal.
\<close>

definition artifactDeviates :: "json \<Rightarrow> bool" where
  "artifactDeviates j \<longleftrightarrow>
     (case field j ''sha256'' of Some (JStr h) \<Rightarrow> \<not> sha256Pattern h | _ \<Rightarrow> True) \<or>
     (case field j ''bytes'' of Some (JNum r) \<Rightarrow> r < 0 \<or> r \<noteq> of_int \<lfloor>r\<rfloor> | _ \<Rightarrow> True)"

definition listedDeviation :: "json \<Rightarrow> bool" where
  "listedDeviation d \<longleftrightarrow>
     field d ''manifestVersion'' \<noteq> Some (JStr ''0.1.0'') \<or>
     (case field d ''artifacts'' of Some (JArr as) \<Rightarrow> list_ex artifactDeviates as | _ \<Rightarrow> False) \<or>
     (case Option.bind (field d ''executionSummary'') (\<lambda>e. field e ''status'') of
        Some (JStr s) \<Rightarrow> s \<noteq> ''SUCCESS'' \<and> s \<noteq> ''FAILED'' \<and> s \<noteq> ''REFUSED''
      | _ \<Rightarrow> True) \<or>
     Option.bind (field d ''solver'') (\<lambda>s. field s ''service'') \<noteq> Some (JStr ''irsb-solver'')"

text \<open>The manifest of the repository's test of an invalid artifact hash.\<close>

definition exampleBadDoc :: json where
  "exampleBadDoc =
     JObj [(''manifestVersion'', JStr ''0.1.0''),
           (''intentId'', JStr ''i''),
           (''runId'', JStr ''r''),
           (''jobType'', JStr ''j''),
           (''createdAt'', JStr ''2025-01-15T12:00:00Z''),
           (''artifacts'',
              JArr [JObj [(''path'', JStr ''a.txt''),
                          (''sha256'', JStr ''not-a-hash''),
                          (''bytes'', JNum 5),
                          (''contentType'', JStr ''text/plain'')]]),
           (''policyDecision'', JObj [(''allowed'', JBool True), (''reasons'', JArr [])]),
           (''executionSummary'', JObj [(''status'', JStr ''SUCCESS'')]),
           (''solver'',
              JObj [(''service'', JStr ''irsb-solver''),
                    (''serviceVersion'', JStr ''1.0.0'')])]"

text \<open>For the proofs: a rejection carries at least one issue.\<close>

definition nonemptyIssues :: "'a parsed \<Rightarrow> bool" where
  "nonemptyIssues r \<longleftrightarrow> (case r of Inl issues \<Rightarrow> issues \<noteq> [] | Inr _ \<Rightarrow> True)"

section \<open>Documents that differ in the order of their keys\<close>

text \<open>
  Two values hold the same data when they are equal up to the order in which the
  properties of their objects, at every nesting level, were inserted: every key reads the
  same in both.
\<close>

inductive sameData :: "json \<Rightarrow> json \<Rightarrow> bool" where
  sameNull: "sameData JNull JNull"
| sameBool: "sameData (JBool b) (JBool b)"
| sameNum: "sameData (JNum r) (JNum r)"
| sameStr: "sameData (JStr s) (JStr s)"
| sameArr: "list_all2 sameData xs ys \<Longrightarrow> sameData (JArr xs) (JArr ys)"
| sameObj: "(\<And>k. rel_option sameData (map_of kvs k) (map_of kvs' k))
              \<Longrightarrow> sameData (JObj kvs) (JObj kvs')"

text \<open>The manifest of the examples with the keys of every object in the opposite order.\<close>

definition exampleDocReversed :: json where
  "exampleDocReversed =
     JObj [(''solver'',
              JObj [(''serviceVersion'', JStr ''1.0.0''),
                    (''service'', JStr ''irsb-solver'')]),
           (''executionSummary'', JObj [(''status'', JStr ''SUCCESS'')]),
           (''policyDecision'', JObj [(''reasons'', JArr []), (''allowed'', JBool True)]),
           (''artifacts'',
              JArr [JObj [(''contentType'', JStr ''text/plain''),
                          (''bytes'', JNum 5),
                          (''sha256'', JStr (replicate 64 CHR ''a'')),
                          (''path'', JStr ''artifacts/report.txt'')]]),
           (''createdAt'', JStr ''2025-01-15T12:00:00Z''),
           (''jobType'', JStr ''diagnostic''),
           (''runId'', JStr ''run-001''),
           (''intentId'', JStr ''intent-001''),
           (''manifestVersion'', JStr ''0.1.0'')]"

section \<open>Runs and conditions of the amended properties\<close>

text \<open>The segments of a path: what lies between its separators, the empty strings left out.\<close>

definition segments :: "string \<Rightarrow> string list" where
  "segments p = filter (\<lambda>s. s \<noteq> []) (splitOn CHR ''/'' p)"

text \<open>For the proofs: a segment that \<open>normalizeString\<close> keeps below a root.\<close>

definition keptSegment :: "string \<Rightarrow> bool" where
  "keptSegment s \<longleftrightarrow> s \<noteq> [] \<and> s \<noteq> ''.'' \<and> s \<noteq> ''..'' \<and> CHR ''/'' \<notin> set s"

text \<open>The document of a manifest with the given artifacts, and an artifact of the document.\<close>

definition artifactDoc :: "string \<Rightarrow> json" where
  "artifactDoc p =
     JObj [(''path'', JStr p),
           (''sha256'', JStr (replicate 64 CHR ''a'')),
           (''bytes'', JNum 5),
           (''contentType'', JStr ''text/plain'')]"

definition manifestDoc :: "json list \<Rightarrow> json" where
  "manifestDoc arts =
     JObj [(''manifestVersion'', JStr ''0.1.0''),
           (''intentId'', JStr ''intent-001''),
           (''runId'', JStr ''run-001''),
           (''jobType'', JStr ''diagnostic''),
           (''createdAt'', JStr ''2025-01-15T12:00:00Z''),
           (''artifacts'', JArr arts),
           (''policyDecision'', JObj [(''allowed'', JBool True), (''reasons'', JArr [])]),
           (''executionSummary'', JObj [(''status'', JStr ''SUCCESS'')]),
           (''solver'',
              JObj [(''service'', JStr ''irsb-solver''),
                    (''serviceVersion'', JStr ''1.0.0'')])]"

text \<open>
  A run under a collation that ignores case: the manifest declares \<open>Z.txt\<close> and \<open>a.txt\<close>,
  the receipt delivers both, and neither file is on disk.
\<close>

definition collationDoc :: json where
  "collationDoc = manifestDoc [artifactDoc ''Z.txt'', artifactDoc ''a.txt'']"

definition collationEnv :: Env where
  "collationEnv = (exampleRun collationDoc []) \<lparr>localeCompare := caseFoldCompare\<rparr>"

definition collationReceipt :: NormalizedReceipt where
  "collationReceipt =
     exampleReceipt
       \<lparr>manifestSha256 := exampleDigest (stringify collationDoc),
        delivered :=
          [exampleArtifact \<lparr>ArtifactEntry.path := ''a.txt''\<rparr>,
           exampleArtifact \<lparr>ArtifactEntry.path := ''Z.txt''\<rparr>]\<rparr>"

text \<open>
  The paths, present and not empty, of a list of failures: the failures for which the
  deriver writes a \<open>failurePath\<close> link.
\<close>

definition pathsOf :: "VerificationFailure list \<Rightarrow> string list" where
  "pathsOf fs =
     concat (map (\<lambda>f. case path f of None \<Rightarrow> [] | Some p \<Rightarrow> if p = [] then [] else [p]) fs)"

text \<open>A result with two failures of the code \<open>ARTIFACT_HASH_MISMATCH\<close>, at two paths.\<close>

definition exampleTwoMismatches :: VerificationResult where
  "exampleTwoMismatches =
     \<lparr>VerificationResult.ok = False,
      failures =
        [\<lparr>code = ARTIFACT_HASH_MISMATCH, message = ''first'', path = Some ''a.txt''\<rparr>,
         \<lparr>code = ARTIFACT_HASH_MISMATCH, message = ''second'', path = Some ''b.txt''\<rparr>],
      evidenceLinks = []\<rparr>"

text \<open>
  A run whose manifest lists the artifact \<open>artifacts/report.txt\<close> twice; the receipt
  delivers it twice, and the file on disk has been replaced by another text.
\<close>

definition duplicateDoc :: json where
  "duplicateDoc =
     manifestDoc [artifactDoc ''artifacts/report.txt'', artifactDoc ''artifacts/report.txt'']"

definition duplicateEnv :: Env where
  "duplicateEnv = exampleRun duplicateDoc [(''/run/artifacts/report.txt'', ''tampered'')]"

definition duplicateReceipt :: NormalizedReceipt where
  "duplicateReceipt =
     exampleReceipt
       \<lparr>manifestSha256 := exampleDigest (stringify duplicateDoc),
        delivered := [exampleArtifact, exampleArtifact]\<rparr>"

text \<open>
  What the collapse law counts in the signals derived from a result: the number of
  failures of the code \<open>ARTIFACT_HASH_MISMATCH\<close> and, for every signal
  \<open>BE_ARTIFACT_HASH_MISMATCH\<close>, the number of its evidence entries and the number of its
  \<open>failurePath\<close> entries.
\<close>

definition collapseSummary ::
  "Env \<Rightarrow> NormalizedReceipt \<Rightarrow> VerificationResult \<Rightarrow> nat \<times> (nat \<times> nat) list" where
  "collapseSummary env receipt result =
     (length (failuresWithCode ARTIFACT_HASH_MISMATCH result),
      map (\<lambda>s. (length (evidence s), length (linksOfType ''failurePath'' (evidence s))))
        (signalsWithId ''BE_ARTIFACT_HASH_MISMATCH''
           (deriveBehaviorSignals env result receipt 0)))"

section \<open>Sorting with a comparison function\<close>

lemma set_insertBy: "set (insertBy cmp x xs) = insert x (set xs)"
  by (induction xs) auto

lemma mset_insertBy: "mset (insertBy cmp x xs) = add_mset x (mset xs)"
  by (induction xs) auto

lemma mset_sortBy: "mset (sortBy cmp xs) = mset xs"
  by (induction xs) (simp_all add: sortBy_def mset_insertBy)

lemma set_sortBy: "set (sortBy cmp xs) = set xs"
  by (induction xs) (simp_all add: sortBy_def set_insertBy)

lemma length_insertBy: "length (insertBy cmp x xs) = Suc (length xs)"
  by (induction xs) auto

lemma length_sortBy: "length (sortBy cmp xs) = length xs"
  by (induction xs) (simp_all add: sortBy_def length_insertBy)

lemma consistent_total: "consistentCompare cmp \<Longrightarrow> cmp a b \<le> 0 \<or> cmp b a \<le> 0"
proof -
  assume "consistentCompare cmp"
  then have "cmp b a \<le> 0 \<longleftrightarrow> 0 \<le> cmp a b" by (simp add: consistentCompare_def)
  then show ?thesis by linarith
qed

lemma consistent_trans:
  "consistentCompare cmp \<Longrightarrow> cmp a b \<le> 0 \<Longrightarrow> cmp b c \<le> 0 \<Longrightarrow> cmp a c \<le> 0"
  unfolding consistentCompare_def by blast

lemma consistent_zero: "consistentCompare cmp \<Longrightarrow> cmp a b = 0 \<longleftrightarrow> cmp b a = 0"
proof -
  assume "consistentCompare cmp"
  then have "cmp b a \<le> 0 \<longleftrightarrow> 0 \<le> cmp a b" and "cmp a b \<le> 0 \<longleftrightarrow> 0 \<le> cmp b a"
    by (simp_all add: consistentCompare_def)
  then show ?thesis by linarith
qed

lemma consistent_neg: "consistentCompare cmp \<Longrightarrow> cmp a b < 0 \<longleftrightarrow> 0 < cmp b a"
proof -
  assume "consistentCompare cmp"
  then have "cmp b a \<le> 0 \<longleftrightarrow> 0 \<le> cmp a b" and "cmp a b \<le> 0 \<longleftrightarrow> 0 \<le> cmp b a"
    by (simp_all add: consistentCompare_def)
  then show ?thesis by linarith
qed

lemma sorted_insertBy:
  assumes c: "consistentCompare cmp"
  shows "sorted_wrt (\<lambda>a b. cmp a b \<le> 0) xs \<Longrightarrow> sorted_wrt (\<lambda>a b. cmp a b \<le> 0) (insertBy cmp x xs)"
proof (induction xs)
  case Nil
  then show ?case by simp
next
  case (Cons y ys)
  show ?case
  proof (cases "cmp x y \<le> 0")
    case True
    have "\<forall>z\<in>set ys. cmp x z \<le> 0"
      using Cons.prems True consistent_trans [OF c] by auto
    with True Cons.prems show ?thesis by simp
  next
    case False
    then have yx: "cmp y x \<le> 0" using consistent_total [OF c, of x y] by simp
    with False Cons show ?thesis by (auto simp: set_insertBy)
  qed
qed

lemma sorted_sortBy:
  "consistentCompare cmp \<Longrightarrow> sorted_wrt (\<lambda>a b. cmp a b \<le> 0) (sortBy cmp xs)"
  by (induction xs) (auto simp: sortBy_def sorted_insertBy)

lemma consistent_codeUnitCompare: "consistentCompare codeUnitCompare"
  by (auto simp: consistentCompare_def codeUnitCompare_def)

lemma consistent_caseFoldCompare: "consistentCompare caseFoldCompare"
  by (auto simp: consistentCompare_def caseFoldCompare_def codeUnitCompare_def)

section \<open>The result of a verification\<close>

lemma compareFailures_le:
  "compareFailures env a b \<le> 0 \<longleftrightarrow> failureLe (localeCompare env) a b"
  by (auto simp: compareFailures_def failureLe_def pathOrEmpty_def Let_def)

lemma consistent_compareFailures:
  assumes c: "consistentCompare (localeCompare env)"
  shows "consistentCompare (compareFailures env)"
  unfolding consistentCompare_def
proof (intro conjI allI impI)
  fix a b :: VerificationFailure
  let ?x = "localeCompare env (FailureCode_name (code a)) (FailureCode_name (code b))"
  let ?y = "localeCompare env (FailureCode_name (code b)) (FailureCode_name (code a))"
  have xy: "?x \<le> 0 \<longleftrightarrow> 0 \<le> ?y" and yx: "?y \<le> 0 \<longleftrightarrow> 0 \<le> ?x"
    and p: "localeCompare env (pathOrEmpty a) (pathOrEmpty b) \<le> 0
             \<longleftrightarrow> 0 \<le> localeCompare env (pathOrEmpty b) (pathOrEmpty a)"
    using c by (simp_all add: consistentCompare_def)
  show "compareFailures env a b \<le> 0 \<longleftrightarrow> 0 \<le> compareFailures env b a"
  proof (cases "?x = 0")
    case True
    with xy yx have "?y = 0" by linarith
    with True p show ?thesis by (simp add: compareFailures_def Let_def)
  next
    case False
    with xy yx have "?y \<noteq> 0" by linarith
    with False xy show ?thesis by (simp add: compareFailures_def Let_def)
  qed
next
  fix a b d :: VerificationFailure
  assume h: "compareFailures env a b \<le> 0 \<and> compareFailures env b d \<le> 0"
  let ?lc = "localeCompare env"
  let ?c = "\<lambda>f. FailureCode_name (code f)"
  from h have ab: "failureLe ?lc a b" and bd: "failureLe ?lc b d"
    by (simp_all add: compareFailures_le)
  have le_ab: "?lc (?c a) (?c b) \<le> 0" and le_bd: "?lc (?c b) (?c d) \<le> 0"
    using ab bd by (auto simp: failureLe_def)
  have le_ad: "?lc (?c a) (?c d) \<le> 0"
    using consistent_trans [OF c le_ab le_bd] .
  have "failureLe ?lc a d"
  proof (cases "?lc (?c a) (?c d) < 0")
    case True
    then show ?thesis by (simp add: failureLe_def pathOrEmpty_def)
  next
    case False
    with le_ad have z: "?lc (?c a) (?c d) = 0" by simp
    then have da: "?lc (?c d) (?c a) \<le> 0"
      using consistent_zero [OF c, of "?c a" "?c d"] by simp
    have "?lc (?c b) (?c a) \<le> 0" using consistent_trans [OF c le_bd da] .
    then have zab: "?lc (?c a) (?c b) = 0"
      using le_ab consistent_neg [OF c, of "?c a" "?c b"] by auto
    have "?lc (?c d) (?c b) \<le> 0" using consistent_trans [OF c da le_ab] .
    then have zbd: "?lc (?c b) (?c d) = 0"
      using le_bd consistent_neg [OF c, of "?c b" "?c d"] by auto
    from zab ab have p1: "?lc (pathOrEmpty a) (pathOrEmpty b) \<le> 0" by (simp add: failureLe_def pathOrEmpty_def)
    from zbd bd have p2: "?lc (pathOrEmpty b) (pathOrEmpty d) \<le> 0" by (simp add: failureLe_def pathOrEmpty_def)
    from z consistent_trans [OF c p1 p2] show ?thesis by (simp add: failureLe_def pathOrEmpty_def)
  qed
  then show "compareFailures env a d \<le> 0" by (simp add: compareFailures_le)
qed

lemma buildResult_sorted:
  assumes "consistentCompare (localeCompare env)"
  shows "sorted_wrt (failureLe (localeCompare env)) (failures (buildResult env fs ls))"
  using sorted_sortBy [OF consistent_compareFailures [OF assms], of fs]
  by (simp add: buildResult_def compareFailures_le Let_def)

lemma verifyEvidence_buildResult:
  "\<exists>fs ls. verifyEvidence env receipt runDir options = buildResult env fs ls"
  by (auto simp: verifyEvidence_def Let_def split: sum.splits prod.splits)

text \<open>
  The receipt of the run under the collation that ignores case is the receipt that
  \<open>normalizeReceipt\<close> makes of the manifest of that run.
\<close>

lemma collationReceipt_normalized:
  "map_sum id (\<lambda>m. normalizeReceipt collationEnv m (exampleDigest (stringify collationDoc)))
     (safeParseManifest collationEnv (stringify collationDoc)) = Inr collationReceipt"
  by code_simp

text \<open>
  C7, as amended. The failures of every result of \<open>verifyEvidence\<close> are non-decreasing in
  the lexicographic ordering of the pairs (code, path or the empty string) in which the
  codes and the paths are compared by \<open>localeCompare\<close>, the collation of the host, whatever
  the order in which the failures were found: for every collation that is a consistent
  comparison, as the language requires of \<open>localeCompare\<close>.
\<close>

theorem verifyEvidence_failures_sorted:
  assumes "consistentCompare (localeCompare env)"
  shows "sorted_wrt (failureLe (localeCompare env))
           (failures (verifyEvidence env receipt runDir options))"
proof -
  obtain fs ls where "verifyEvidence env receipt runDir options = buildResult env fs ls"
    using verifyEvidence_buildResult by blast
  then show ?thesis using buildResult_sorted [OF assms] by simp
qed

theorem verifyEvidence_failures_sorted_witness:
  "consistentCompare (localeCompare collationEnv) \<and>
   sorted_wrt (failureLe (localeCompare collationEnv))
     (failures (verifyEvidence collationEnv collationReceipt ''/run'' None)) \<and>
   map path (failures (verifyEvidence collationEnv collationReceipt ''/run'' None))
     = [Some ''a.txt'', Some ''Z.txt'']"
proof -
  have c: "consistentCompare (localeCompare collationEnv)"
    by (simp add: collationEnv_def consistent_caseFoldCompare)
  have e: "map path (failures (verifyEvidence collationEnv collationReceipt ''/run'' None))
     = [Some ''a.txt'', Some ''Z.txt'']"
    by code_simp
  from c verifyEvidence_failures_sorted [OF c, of collationReceipt "''/run''" None] e
  show ?thesis by simp
qed

text \<open>
  C7 as stated fails: under a collation that orders \<open>a\<close> before \<open>Z\<close>, as the collation of
  the host does, the failures of two missing artifacts are returned with \<open>a.txt\<close> before
  \<open>Z.txt\<close>, which is decreasing in the lexicographic ordering of the strings.
\<close>

theorem verifyEvidence_failures_sorted_counterexample:
  "failures (verifyEvidence collationEnv collationReceipt ''/run'' None) =
     [\<lparr>code = ARTIFACT_NOT_FOUND, message = ''Artifact not found: a.txt'',
        path = Some ''a.txt''\<rparr>,
      \<lparr>code = ARTIFACT_NOT_FOUND, message = ''Artifact not found: Z.txt'',
        path = Some ''Z.txt''\<rparr>] \<and>
   \<not> sorted_wrt (failureLe codeUnitCompare)
       (failures (verifyEvidence collationEnv collationReceipt ''/run'' None))"
proof -
  have e: "failures (verifyEvidence collationEnv collationReceipt ''/run'' None) =
     [\<lparr>code = ARTIFACT_NOT_FOUND, message = ''Artifact not found: a.txt'',
        path = Some ''a.txt''\<rparr>,
      \<lparr>code = ARTIFACT_NOT_FOUND, message = ''Artifact not found: Z.txt'',
        path = Some ''Z.txt''\<rparr>]"
    by code_simp
  show ?thesis unfolding e by (simp add: failureLe_def codeUnitCompare_def)
qed

text \<open>
  C8. In every result of \<open>verifyEvidence\<close> the flag \<open>ok\<close> is true exactly when there is no
  failure.
\<close>

theorem verifyEvidence_ok_iff:
  "VerificationResult.ok (verifyEvidence env receipt runDir options)
     \<longleftrightarrow> failures (verifyEvidence env receipt runDir options) = []"
proof -
  obtain fs ls where "verifyEvidence env receipt runDir options = buildResult env fs ls"
    using verifyEvidence_buildResult by blast
  then show ?thesis by (simp add: buildResult_def Let_def)
qed

section \<open>Path containment\<close>

lemma splitOn_nonempty: "splitOn sep s \<noteq> []"
  by (induction s) (auto split: list.splits)

lemma hd_splitOn_prefix: "prefix (hd (splitOn sep s)) s"
  by (induction s) (auto split: list.splits simp: splitOn_nonempty)

lemma dotdot_in_tl: "''..'' \<in> set (tl (splitOn CHR ''/'' s)) \<Longrightarrow> str_includes s ''/..''"
proof (induction s)
  case Nil
  then show ?case by simp
next
  case (Cons c cs)
  show ?case
  proof (cases "c = CHR ''/''")
    case True
    with Cons.prems have mem: "''..'' \<in> set (splitOn CHR ''/'' cs)" by simp
    show ?thesis
    proof (cases "hd (splitOn CHR ''/'' cs) = ''..''")
      case h: True
      have "prefix ''..'' cs" using hd_splitOn_prefix [of "CHR ''/''" cs] h by simp
      with True show ?thesis by simp
    next
      case False
      with mem have "''..'' \<in> set (tl (splitOn CHR ''/'' cs))"
        by (cases "splitOn CHR ''/'' cs") auto
      with Cons.IH show ?thesis by simp
    qed
  next
    case False
    with Cons.prems have "''..'' \<in> set (tl (splitOn CHR ''/'' cs))"
      by (auto split: list.splits)
    with Cons.IH show ?thesis by simp
  qed
qed

lemma dotdot_segment_visible:
  assumes "''..'' \<in> set (splitOn CHR ''/'' s)"
  shows "prefix ''..'' s \<or> str_includes s ''/..''"
proof (cases "hd (splitOn CHR ''/'' s) = ''..''")
  case True
  then show ?thesis using hd_splitOn_prefix [of "CHR ''/''" s] by simp
next
  case False
  with assms have "''..'' \<in> set (tl (splitOn CHR ''/'' s))"
    by (cases "splitOn CHR ''/'' s") auto
  then show ?thesis by (simp add: dotdot_in_tl)
qed

lemma splitOn_no_sep: "s \<in> set (splitOn c p) \<Longrightarrow> c \<notin> set s"
proof (induction p arbitrary: s)
  case Nil
  then show ?case by simp
next
  case (Cons a p)
  show ?case
  proof (cases "a = c")
    case True
    with Cons show ?thesis by auto
  next
    case False
    obtain t ts where ts: "splitOn c p = t # ts"
      using splitOn_nonempty [of c p] by (cases "splitOn c p") auto
    with False Cons.prems have "s = a # t \<or> s \<in> set ts" by simp
    with False ts Cons.IH [of t] Cons.IH [of s] show ?thesis by auto
  qed
qed

lemma splitOn_append_sep: "splitOn c (x @ c # y) = splitOn c x @ splitOn c y"
proof (induction x)
  case Nil
  then show ?case by simp
next
  case (Cons a x)
  obtain t ts where ts: "splitOn c x = t # ts"
    using splitOn_nonempty [of c x] by (cases "splitOn c x") auto
  with Cons show ?case by simp
qed

lemma splitOn_no_sep_id: "c \<notin> set s \<Longrightarrow> splitOn c s = [s]"
  by (induction s) auto

lemma splitOn_join:
  "segs \<noteq> [] \<Longrightarrow> \<forall>s \<in> set segs. c \<notin> set s \<Longrightarrow> splitOn c (join [c] segs) = segs"
proof (induction "[c]" segs rule: join.induct)
  case 1
  then show ?case by simp
next
  case (2 s)
  then show ?case by (simp add: splitOn_no_sep_id)
next
  case (3 s t ss)
  then show ?case by (simp add: splitOn_append_sep splitOn_no_sep_id)
qed

lemma segments_append_sep: "segments (x @ CHR ''/'' # y) = segments x @ segments y"
  by (simp add: segments_def splitOn_append_sep)

lemma segments_rooted:
  assumes "list_all keptSegment segs"
  shows "segments (CHR ''/'' # join ''/'' segs) = segs"
proof (cases "segs = []")
  case True
  then show ?thesis by (simp add: segments_def)
next
  case False
  from assms have "\<forall>s \<in> set segs. CHR ''/'' \<notin> set s"
    by (simp add: list_all_iff keptSegment_def)
  with False have "splitOn CHR ''/'' (join ''/'' segs) = segs"
    using splitOn_join [of segs "CHR ''/''"] by simp
  moreover from assms have "filter (\<lambda>s. s \<noteq> []) segs = segs"
    by (simp add: list_all_iff keptSegment_def)
  ultimately show ?thesis by (simp add: segments_def)
qed

lemma normalizeStep_kept:
  "list_all keptSegment res \<Longrightarrow> CHR ''/'' \<notin> set seg \<Longrightarrow>
   list_all keptSegment (normalizeStep False res seg)"
  by (cases res) (auto simp: keptSegment_def)

lemma foldl_normalizeStep_kept:
  "list_all keptSegment res \<Longrightarrow> \<forall>s \<in> set segs. CHR ''/'' \<notin> set s \<Longrightarrow>
   list_all keptSegment (foldl (normalizeStep False) res segs)"
proof (induction segs arbitrary: res)
  case Nil
  then show ?case by simp
next
  case (Cons s segs)
  from Cons.prems have "list_all keptSegment (normalizeStep False res s)"
    using normalizeStep_kept [of res s] by simp
  with Cons show ?case by simp
qed

lemma normalizeString_kept:
  "\<exists>segs. list_all keptSegment segs \<and> normalizeString p False = join ''/'' segs"
proof -
  have "list_all keptSegment (foldl (normalizeStep False) [] (splitOn CHR ''/'' p))"
    using foldl_normalizeStep_kept [of "[]" "splitOn CHR ''/'' p"] splitOn_no_sep [of _ "CHR ''/''" p]
    by auto
  then have "list_all keptSegment (rev (foldl (normalizeStep False) [] (splitOn CHR ''/'' p)))"
    by (simp add: list_all_iff)
  then show ?thesis unfolding normalizeString_def by blast
qed

lemma resolveLoop_absolute:
  "isAbsolute wd \<Longrightarrow> snd (resolveLoop (xs @ [wd]) acc)"
proof (induction xs arbitrary: acc)
  case Nil
  then show ?case by (cases wd) (auto simp: isAbsolute_def)
next
  case (Cons x xs)
  then show ?case by simp
qed

lemma resolve_kept:
  assumes "isAbsolute wd"
  shows "\<exists>segs. list_all keptSegment segs \<and> resolve wd args = CHR ''/'' # join ''/'' segs"
proof -
  obtain r b where rb: "resolveLoop (rev args @ [wd]) [] = (r, b)"
    by (cases "resolveLoop (rev args @ [wd]) []") auto
  with resolveLoop_absolute [OF assms, of "rev args" "[]"] have b by simp
  with rb have "resolve wd args = CHR ''/'' # normalizeString r False"
    by (simp add: resolve_def Let_def)
  with normalizeString_kept [of r] show ?thesis by auto
qed

lemma safeJoin_contained:
  assumes wd: "isAbsolute wd" and j: "safeJoin wd base q = Some joined"
  shows "joined = ''/'' @ join ''/'' (segments joined) \<and>
         ''.'' \<notin> set (segments joined) \<and> ''..'' \<notin> set (segments joined) \<and>
         prefix (segments (resolve wd [base])) (segments joined) \<and>
         (joined = resolve wd [base] \<or> prefix (resolve wd [base] @ ''/'') joined)"
proof -
  let ?b = "resolve wd [base]"
  from j have jd: "joined = resolve wd [?b, q]"
    and guard: "joined = ?b \<or> prefix (?b @ ''/'') joined"
    by (auto simp: safeJoin_def Let_def split: if_splits)
  from resolve_kept [OF wd, of "[?b, q]"] jd
  obtain js where js: "list_all keptSegment js" "joined = CHR ''/'' # join ''/'' js"
    by auto
  then have sj: "segments joined = js" by (simp add: segments_rooted)
  from js have k: "''..'' \<notin> set js \<and> ''.'' \<notin> set js"
    by (auto simp: list_all_iff keptSegment_def)
  from guard have "prefix (segments ?b) (segments joined)"
  proof
    assume "joined = ?b"
    then show ?thesis by simp
  next
    assume "prefix (?b @ ''/'') joined"
    then obtain rest where "joined = ?b @ CHR ''/'' # rest"
      by (auto simp: prefix_def)
    then show ?thesis by (simp add: segments_append_sep)
  qed
  with js sj k guard show ?thesis by simp
qed

text \<open>
  C2, as amended. A path that is absolute, or whose normalized form still has a \<open>..\<close>
  segment, is reported invalid by \<open>validateRelativePath\<close>. And \<open>safeJoin\<close> never returns a
  path outside the base directory, for any path it is given, with \<open>..\<close> segments or not:
  the working directory being absolute, as \<open>process.cwd()\<close> is, a path it returns is the
  root followed by its segments, none of them \<open>.\<close> or \<open>..\<close>, the segments of the resolved
  base directory are the first of them, and the path is the resolved base directory or
  starts with it and a separator.
\<close>

theorem path_containment:
  "(isAbsolute p \<or> containsDotDotSegment (normalize_path p)
      \<longrightarrow> \<not> valid (validateRelativePath p)) \<and>
   (isAbsolute wd \<and> safeJoin wd base q = Some joined \<longrightarrow>
      joined = ''/'' @ join ''/'' (segments joined) \<and>
      ''.'' \<notin> set (segments joined) \<and> ''..'' \<notin> set (segments joined) \<and>
      prefix (segments (resolve wd [base])) (segments joined) \<and>
      (joined = resolve wd [base] \<or> prefix (resolve wd [base] @ ''/'') joined))"
proof
  show "isAbsolute p \<or> containsDotDotSegment (normalize_path p)
          \<longrightarrow> \<not> valid (validateRelativePath p)"
    using dotdot_segment_visible [of "normalize_path p"]
    by (auto simp: validateRelativePath_def containsDotDotSegment_def Let_def)
  show "isAbsolute wd \<and> safeJoin wd base q = Some joined \<longrightarrow>
      joined = ''/'' @ join ''/'' (segments joined) \<and>
      ''.'' \<notin> set (segments joined) \<and> ''..'' \<notin> set (segments joined) \<and>
      prefix (segments (resolve wd [base])) (segments joined) \<and>
      (joined = resolve wd [base] \<or> prefix (resolve wd [base] @ ''/'') joined)"
    using safeJoin_contained [of wd base q joined] by blast
qed

theorem path_containment_witness:
  "containsDotDotSegment (normalize_path ''../secret.txt'') \<and>
   \<not> valid (validateRelativePath ''../secret.txt'') \<and>
   isAbsolute ''/work'' \<and>
   safeJoin ''/work'' ''/run'' ''artifacts/report.txt'' = Some ''/run/artifacts/report.txt'' \<and>
   segments (resolve ''/work'' [''/run'']) = [''run''] \<and>
   segments ''/run/artifacts/report.txt'' = [''run'', ''artifacts'', ''report.txt''] \<and>
   ''..'' \<notin> set (segments ''/run/artifacts/report.txt'') \<and>
   prefix (segments (resolve ''/work'' [''/run''])) (segments ''/run/artifacts/report.txt'')"
proof -
  have h1: "containsDotDotSegment (normalize_path ''../secret.txt'')"
    by code_simp
  have h2: "safeJoin ''/work'' ''/run'' ''artifacts/report.txt'' = Some ''/run/artifacts/report.txt''"
    by code_simp
  have h3: "isAbsolute ''/work''"
    by (simp add: isAbsolute_def)
  have h4: "segments (resolve ''/work'' [''/run'']) = [''run'']"
    by code_simp
  have h5: "segments ''/run/artifacts/report.txt'' = [''run'', ''artifacts'', ''report.txt'']"
    by code_simp
  from h1 h2 h3
    path_containment [of "''../secret.txt''" "''/work''" "''/run''" "''artifacts/report.txt''"
      "''/run/artifacts/report.txt''"]
  have "\<not> valid (validateRelativePath ''../secret.txt'') \<and>
        ''..'' \<notin> set (segments ''/run/artifacts/report.txt'') \<and>
        prefix (segments (resolve ''/work'' [''/run''])) (segments ''/run/artifacts/report.txt'')"
    by blast
  with h1 h2 h3 h4 h5 show ?thesis by blast
qed

text \<open>
  C2 as stated fails: \<open>a/../b\<close> has a \<open>..\<close> segment, yet \<open>validateRelativePath\<close> accepts it
  (its normalized form is \<open>b\<close>) and \<open>safeJoin\<close> returns the path under the base.
\<close>

theorem path_containment_counterexample:
  "containsDotDotSegment ''a/../b'' \<and>
   valid (validateRelativePath ''a/../b'') \<and>
   safeJoin ''/work'' ''/run'' ''a/../b'' = Some ''/run/b''"
  by code_simp

section \<open>Signal derivation\<close>

lemma getList_addFailure:
  "getList (addFailure m f) c = getList m c @ (if code f = c then [f] else [])"
  by (auto simp: getList_def addFailure_def Let_def split: option.splits)

lemma getList_failuresByCode:
  "getList (foldl addFailure m fs) c = getList m c @ filter (\<lambda>f. code f = c) fs"
  by (induction fs arbitrary: m) (auto simp: getList_addFailure)

lemma failuresByCode_lookup:
  "(case foldl addFailure Map.empty fs c of None \<Rightarrow> [] | Some xs \<Rightarrow> xs) = filter (\<lambda>f. code f = c) fs"
  using getList_failuresByCode [of Map.empty fs c] by (simp add: getList_def)

lemma deriveSignal_eq:
  "deriveSignal env (foldl addFailure Map.empty fs) base t sigs def = sigs @ signalOf env fs base t def"
  by (simp add: deriveSignal_def signalOf_def failuresByCode_lookup Let_def)

lemma foldl_deriveSignal:
  "foldl (deriveSignal env (foldl addFailure Map.empty fs) base t) sigs defs
     = sigs @ concat (map (signalOf env fs base t) defs)"
  by (induction defs arbitrary: sigs) (simp_all add: deriveSignal_eq)

lemma deriveBehaviorSignals_failed:
  "\<not> VerificationResult.ok result \<Longrightarrow>
   deriveBehaviorSignals env result receipt t =
     concat (map (signalOf env (failures result)
       [\<lparr>type = ''receiptId'', ref = NormalizedReceipt.receiptId receipt\<rparr>,
        \<lparr>type = ''manifestSha256'', ref = manifestSha256 receipt\<rparr>] t) SIGNAL_DEFS)"
  by (simp add: deriveBehaviorSignals_def Let_def foldl_deriveSignal)

lemma set_sortEvidence: "set (sortEvidence env ls) = set ls"
  by (simp add: sortEvidence_def set_sortBy)

lemma distinct_sortEvidence: "distinct (sortEvidence env ls)"
  using mset_eq_imp_distinct_iff [OF mset_sortBy [of "compareEvidence env" "remdups ls"]]
  by (simp add: sortEvidence_def)

lemma length_sortEvidence: "length (sortEvidence env ls) = card (set ls)"
  by (simp add: sortEvidence_def length_sortBy length_remdups_card_conv)

lemma signalOf_props:
  assumes "s \<in> set (signalOf env fs base t def)"
  shows "Signal.signalId s = SignalDef.signalId def \<and> set base \<subseteq> set (evidence s)"
  using assms by (auto simp: signalOf_def Let_def set_sortEvidence split: if_splits)

lemma behaviorSignalIds_eleven: "length behaviorSignalIds = 11 \<and> distinct behaviorSignalIds"
  by (simp add: behaviorSignalIds_def SIGNAL_DEFS_def)

lemma length_filter_sortBy: "length (filter P (sortBy cmp xs)) = length (filter P xs)"
  by (metis mset_filter mset_sortBy size_mset)

lemma signalOf_id_cases:
  "map Signal.signalId (signalOf env fs base t d) = []
     \<or> map Signal.signalId (signalOf env fs base t d) = [SignalDef.signalId d]"
  by (simp add: signalOf_def Let_def)

lemma signalOf_ids_subset:
  "set (map Signal.signalId (concat (map (signalOf env fs base t) defs)))
     \<subseteq> set (map SignalDef.signalId defs)"
proof (induction defs)
  case Nil
  then show ?case by simp
next
  case (Cons d ds)
  then show ?case using signalOf_id_cases [of env fs base t d] by auto
qed

lemma signalOf_ids_distinct:
  "distinct (map SignalDef.signalId defs) \<Longrightarrow>
   distinct (map Signal.signalId (concat (map (signalOf env fs base t) defs)))"
proof (induction defs)
  case Nil
  then show ?case by simp
next
  case (Cons d ds)
  then have ih: "distinct (map Signal.signalId (concat (map (signalOf env fs base t) ds)))"
    and fresh: "SignalDef.signalId d \<notin> set (map SignalDef.signalId ds)"
    by simp_all
  from fresh signalOf_ids_subset [of env fs base t ds]
  have "SignalDef.signalId d \<notin> set (map Signal.signalId (concat (map (signalOf env fs base t) ds)))"
    by blast
  with ih signalOf_id_cases [of env fs base t d] show ?case by auto
qed

lemma signalOf_other:
  "SignalDef.signalId d \<noteq> i \<Longrightarrow> signalsWithId i (signalOf env fs base t d) = []"
  by (simp add: signalOf_def signalsWithId_def Let_def)

lemma signalsWithId_append: "signalsWithId i (xs @ ys) = signalsWithId i xs @ signalsWithId i ys"
  by (simp add: signalsWithId_def)

text \<open>
  C10. Every signal that \<open>deriveBehaviorSignals\<close> returns has in its evidence the link
  \<open>receiptId\<close> of the receipt and the link \<open>manifestSha256\<close> of the receipt, and its id is
  one of the eleven ids of the deriver: \<open>BE_VERIFIED_OK\<close> and the ten ids of \<open>SIGNAL_DEFS\<close>.
\<close>

theorem deriveBehaviorSignals_evidence:
  assumes "s \<in> set (deriveBehaviorSignals env result receipt t)"
  shows "\<lparr>type = ''receiptId'', ref = NormalizedReceipt.receiptId receipt\<rparr> \<in> set (evidence s) \<and>
         \<lparr>type = ''manifestSha256'', ref = manifestSha256 receipt\<rparr> \<in> set (evidence s) \<and>
         Signal.signalId s \<in> set behaviorSignalIds \<and>
         length behaviorSignalIds = 11 \<and> distinct behaviorSignalIds"
proof (cases "VerificationResult.ok result")
  case True
  with assms have s: "s = \<lparr>Signal.signalId = ''BE_VERIFIED_OK'', severity = LOW, weight = 1 / 10,
         observedAt = t,
         evidence = sortEvidence env
            ([\<lparr>type = ''receiptId'', ref = NormalizedReceipt.receiptId receipt\<rparr>,
              \<lparr>type = ''manifestSha256'', ref = manifestSha256 receipt\<rparr>]
             @ evidenceLinks result)\<rparr>"
    by (simp add: deriveBehaviorSignals_def Let_def)
  have "Signal.signalId s \<in> set behaviorSignalIds"
    by (simp add: s behaviorSignalIds_def)
  moreover have "\<lparr>type = ''receiptId'', ref = NormalizedReceipt.receiptId receipt\<rparr> \<in> set (evidence s)"
    and "\<lparr>type = ''manifestSha256'', ref = manifestSha256 receipt\<rparr> \<in> set (evidence s)"
    by (simp_all add: s set_sortEvidence)
  ultimately show ?thesis using behaviorSignalIds_eleven by simp
next
  case False
  let ?base = "[\<lparr>type = ''receiptId'', ref = NormalizedReceipt.receiptId receipt\<rparr>,
        \<lparr>type = ''manifestSha256'', ref = manifestSha256 receipt\<rparr>]"
  from assms False obtain def where d: "def \<in> set SIGNAL_DEFS"
    and s: "s \<in> set (signalOf env (failures result) ?base t def)"
    by (auto simp: deriveBehaviorSignals_failed)
  from signalOf_props [OF s] d have "Signal.signalId s \<in> set behaviorSignalIds"
    and "set ?base \<subseteq> set (evidence s)"
    by (simp_all add: behaviorSignalIds_def)
  then show ?thesis using behaviorSignalIds_eleven by simp
qed


theorem deriveBehaviorSignals_evidence_witness:
  "hd (deriveBehaviorSignals exampleEnv exampleCollapseResult exampleReceipt 0)
     \<in> set (deriveBehaviorSignals exampleEnv exampleCollapseResult exampleReceipt 0) \<and>
   \<lparr>type = ''receiptId'', ref = NormalizedReceipt.receiptId exampleReceipt\<rparr>
     \<in> set (evidence (hd (deriveBehaviorSignals exampleEnv exampleCollapseResult exampleReceipt 0))) \<and>
   \<lparr>type = ''manifestSha256'', ref = manifestSha256 exampleReceipt\<rparr>
     \<in> set (evidence (hd (deriveBehaviorSignals exampleEnv exampleCollapseResult exampleReceipt 0))) \<and>
   Signal.signalId (hd (deriveBehaviorSignals exampleEnv exampleCollapseResult exampleReceipt 0))
     = ''BE_ARTIFACT_HASH_MISMATCH''"
proof -
  have h: "hd (deriveBehaviorSignals exampleEnv exampleCollapseResult exampleReceipt 0)
     \<in> set (deriveBehaviorSignals exampleEnv exampleCollapseResult exampleReceipt 0)"
    by code_simp
  have i: "Signal.signalId (hd (deriveBehaviorSignals exampleEnv exampleCollapseResult exampleReceipt 0))
     = ''BE_ARTIFACT_HASH_MISMATCH''"
    by code_simp
  from h i deriveBehaviorSignals_evidence [OF h] show ?thesis by simp
qed

lemma linksOfType_sortEvidence:
  "length (linksOfType t (sortEvidence env ls)) = card (set (linksOfType t ls))"
proof -
  have "length (linksOfType t (sortEvidence env ls))
          = length (filter (\<lambda>l. type l = t) (remdups ls))"
    by (simp add: linksOfType_def sortEvidence_def length_filter_sortBy)
  also have "\<dots> = length (remdups (filter (\<lambda>l. type l = t) ls))"
    by (simp add: remdups_filter)
  also have "\<dots> = card (set (linksOfType t ls))"
    by (simp add: linksOfType_def length_remdups_card_conv)
  finally show ?thesis .
qed

lemma failure_links_pathsOf:
  "map (\<lambda>f. \<lparr>type = ''failurePath'', ref = pathOrEmpty f\<rparr>) (filter hasPath fs)
     = map (\<lambda>p. \<lparr>type = ''failurePath'', ref = p\<rparr>) (pathsOf fs)"
  by (induction fs) (auto simp: pathsOf_def hasPath_def pathOrEmpty_def split: option.splits)

lemma card_path_links:
  "card ((\<lambda>p. \<lparr>type = ''failurePath'', ref = p\<rparr>) ` set ps) = card (set ps)"
  by (rule card_image) (simp add: inj_on_def)

lemma card_evidence:
  "card (set ([\<lparr>type = ''receiptId'', ref = r\<rparr>, \<lparr>type = ''manifestSha256'', ref = m\<rparr>]
              @ map (\<lambda>p. \<lparr>type = ''failurePath'', ref = p\<rparr>) ps))
     = 2 + card (set ps)"
proof -
  let ?L = "(\<lambda>p. \<lparr>type = ''failurePath'', ref = p\<rparr>) ` set ps"
  have fin: "finite ?L" by simp
  have a: "\<lparr>type = ''manifestSha256'', ref = m\<rparr> \<notin> ?L" by auto
  have b: "\<lparr>type = ''receiptId'', ref = r\<rparr> \<notin> insert \<lparr>type = ''manifestSha256'', ref = m\<rparr> ?L"
    by auto
  have "card (insert \<lparr>type = ''receiptId'', ref = r\<rparr>
                (insert \<lparr>type = ''manifestSha256'', ref = m\<rparr> ?L)) = 2 + card ?L"
    using fin a b by simp
  then show ?thesis by (simp add: card_path_links)
qed

lemma linksOfType_evidence:
  "linksOfType ''failurePath''
     ([\<lparr>type = ''receiptId'', ref = r\<rparr>, \<lparr>type = ''manifestSha256'', ref = m\<rparr>]
      @ map (\<lambda>p. \<lparr>type = ''failurePath'', ref = p\<rparr>) ps)
   = map (\<lambda>p. \<lparr>type = ''failurePath'', ref = p\<rparr>) ps"
  by (simp add: linksOfType_def filter_map comp_def)

text \<open>
  The receipt of the run whose manifest lists an artifact twice is the receipt that
  \<open>normalizeReceipt\<close> makes of that manifest.
\<close>

lemma duplicateReceipt_normalized:
  "map_sum id (\<lambda>m. normalizeReceipt duplicateEnv m (exampleDigest (stringify duplicateDoc)))
     (safeParseManifest duplicateEnv (stringify duplicateDoc)) = Inr duplicateReceipt"
  by code_simp

text \<open>
  C4, as amended. For a result that satisfies its invariant (\<open>ok\<close> exactly when there is no
  failure) and has at least two failures of the code \<open>ARTIFACT_HASH_MISMATCH\<close>, exactly one
  signal \<open>BE_ARTIFACT_HASH_MISMATCH\<close> is derived. Its evidence is the list, deduplicated and
  sorted, of the two base links and of one \<open>failurePath\<close> link for every such failure that
  has a path: it has no two equal entries, one \<open>failurePath\<close> entry for every distinct
  path of these failures, and two entries more in all; when the N failures have N distinct
  paths, these are N \<open>failurePath\<close> entries, and N + 2 entries in all. And no two signals
  derived have the same id.
\<close>

theorem collapse_law:
  assumes inv: "VerificationResult.ok result \<longleftrightarrow> failures result = []"
    and n: "2 \<le> length (failuresWithCode ARTIFACT_HASH_MISMATCH result)"
  shows "(\<exists>s. signalsWithId ''BE_ARTIFACT_HASH_MISMATCH''
                 (deriveBehaviorSignals env result receipt t) = [s] \<and>
              evidence s = sortEvidence env
                ([\<lparr>type = ''receiptId'', ref = NormalizedReceipt.receiptId receipt\<rparr>,
                  \<lparr>type = ''manifestSha256'', ref = manifestSha256 receipt\<rparr>]
                 @ map (\<lambda>p. \<lparr>type = ''failurePath'', ref = p\<rparr>)
                     (pathsOf (failuresWithCode ARTIFACT_HASH_MISMATCH result))) \<and>
              distinct (evidence s) \<and>
              set (map ref (linksOfType ''failurePath'' (evidence s)))
                = set (pathsOf (failuresWithCode ARTIFACT_HASH_MISMATCH result)) \<and>
              length (linksOfType ''failurePath'' (evidence s))
                = card (set (pathsOf (failuresWithCode ARTIFACT_HASH_MISMATCH result))) \<and>
              length (evidence s)
                = 2 + card (set (pathsOf (failuresWithCode ARTIFACT_HASH_MISMATCH result))) \<and>
              (distinct (pathsOf (failuresWithCode ARTIFACT_HASH_MISMATCH result)) \<and>
               length (pathsOf (failuresWithCode ARTIFACT_HASH_MISMATCH result))
                 = length (failuresWithCode ARTIFACT_HASH_MISMATCH result) \<longrightarrow>
                 length (linksOfType ''failurePath'' (evidence s))
                   = length (failuresWithCode ARTIFACT_HASH_MISMATCH result) \<and>
                 length (evidence s)
                   = 2 + length (failuresWithCode ARTIFACT_HASH_MISMATCH result))) \<and>
         distinct (map Signal.signalId (deriveBehaviorSignals env result receipt t))"
proof -
  let ?base = "[\<lparr>type = ''receiptId'', ref = NormalizedReceipt.receiptId receipt\<rparr>,
                  \<lparr>type = ''manifestSha256'', ref = manifestSha256 receipt\<rparr>]"
  let ?m = "failuresWithCode ARTIFACT_HASH_MISMATCH result"
  let ?ev = "?base @ map (\<lambda>p. \<lparr>type = ''failurePath'', ref = p\<rparr>) (pathsOf ?m)"
  let ?s = "\<lparr>Signal.signalId = ''BE_ARTIFACT_HASH_MISMATCH'', severity = CRITICAL, weight = 1,
             observedAt = t, evidence = sortEvidence env ?ev\<rparr>"
  from n have ne: "?m \<noteq> []" by auto
  then have "failures result \<noteq> []" by (auto simp: failuresWithCode_def)
  with inv have nok: "\<not> VerificationResult.ok result" by simp
  have d: "deriveBehaviorSignals env result receipt t
             = concat (map (signalOf env (failures result) ?base t) SIGNAL_DEFS)"
    using deriveBehaviorSignals_failed [OF nok] .
  have "signalsWithId ''BE_ARTIFACT_HASH_MISMATCH''
          (deriveBehaviorSignals env result receipt t)
        = [\<lparr>Signal.signalId = ''BE_ARTIFACT_HASH_MISMATCH'', severity = CRITICAL, weight = 1,
             observedAt = t,
             evidence = sortEvidence env
               (?base @ map (\<lambda>f. \<lparr>type = ''failurePath'', ref = pathOrEmpty f\<rparr>)
                          (filter hasPath ?m))\<rparr>]"
    using ne unfolding d SIGNAL_DEFS_def
    by (simp add: signalsWithId_append signalOf_other)
       (simp add: signalOf_def signalsWithId_def failuresWithCode_def Let_def)
  then have one: "signalsWithId ''BE_ARTIFACT_HASH_MISMATCH''
               (deriveBehaviorSignals env result receipt t) = [?s]"
    unfolding failure_links_pathsOf [of ?m] .
  have dst: "distinct (sortEvidence env ?ev)"
    by (rule distinct_sortEvidence)
  have cnt: "length (linksOfType ''failurePath'' (sortEvidence env ?ev)) = card (set (pathsOf ?m))"
    unfolding linksOfType_sortEvidence linksOfType_evidence
    by (simp add: card_path_links)
  have refs: "set (map ref (linksOfType ''failurePath'' (sortEvidence env ?ev))) = set (pathsOf ?m)"
  proof -
    have "set (linksOfType ''failurePath'' (sortEvidence env ?ev))
            = set (linksOfType ''failurePath'' ?ev)"
      by (simp only: linksOfType_def set_filter set_sortEvidence)
    also have "\<dots> = (\<lambda>p. \<lparr>type = ''failurePath'', ref = p\<rparr>) ` set (pathsOf ?m)"
      unfolding linksOfType_evidence by simp
    finally show ?thesis by (simp add: image_image)
  qed
  have len: "length (sortEvidence env ?ev) = 2 + card (set (pathsOf ?m))"
    unfolding length_sortEvidence by (rule card_evidence)
  have full: "distinct (pathsOf ?m) \<and> length (pathsOf ?m) = length ?m \<longrightarrow>
                length (linksOfType ''failurePath'' (sortEvidence env ?ev)) = length ?m \<and>
                length (sortEvidence env ?ev) = 2 + length ?m"
    using cnt len by (auto simp: distinct_card)
  have "distinct (map SignalDef.signalId SIGNAL_DEFS)"
    by (simp add: SIGNAL_DEFS_def)
  then have dis: "distinct (map Signal.signalId (deriveBehaviorSignals env result receipt t))"
    unfolding d by (rule signalOf_ids_distinct)
  from one dst refs cnt len full dis show ?thesis by simp
qed

theorem collapse_law_witness:
  "2 \<le> length (failuresWithCode ARTIFACT_HASH_MISMATCH exampleTwoMismatches) \<and>
   pathsOf (failuresWithCode ARTIFACT_HASH_MISMATCH exampleTwoMismatches) = [''a.txt'', ''b.txt''] \<and>
   (\<exists>s. signalsWithId ''BE_ARTIFACT_HASH_MISMATCH''
          (deriveBehaviorSignals exampleEnv exampleTwoMismatches exampleReceipt 0) = [s] \<and>
        length (linksOfType ''failurePath'' (evidence s)) = 2 \<and>
        length (evidence s) = 4)"
proof -
  have inv: "VerificationResult.ok exampleTwoMismatches \<longleftrightarrow> failures exampleTwoMismatches = []"
    by (simp add: exampleTwoMismatches_def)
  have n: "2 \<le> length (failuresWithCode ARTIFACT_HASH_MISMATCH exampleTwoMismatches)"
    by (simp add: exampleTwoMismatches_def failuresWithCode_def)
  have m: "length (failuresWithCode ARTIFACT_HASH_MISMATCH exampleTwoMismatches) = 2"
    by (simp add: exampleTwoMismatches_def failuresWithCode_def)
  have p: "pathsOf (failuresWithCode ARTIFACT_HASH_MISMATCH exampleTwoMismatches)
             = [''a.txt'', ''b.txt'']"
    by (simp add: exampleTwoMismatches_def failuresWithCode_def pathsOf_def)
  from collapse_law [OF inv n, of exampleEnv exampleReceipt 0] n show ?thesis
    unfolding p m by auto
qed

text \<open>
  C4 as stated fails: a manifest that lists one artifact twice is verified with two
  failures of the code \<open>ARTIFACT_HASH_MISMATCH\<close>, both at the path of that artifact; the
  one signal \<open>BE_ARTIFACT_HASH_MISMATCH\<close> derived has three evidence entries, of which one
  is a \<open>failurePath\<close> entry.
\<close>

theorem collapse_law_counterexample:
  "collapseSummary duplicateEnv duplicateReceipt
     (verifyEvidence duplicateEnv duplicateReceipt ''/run'' None) = (2, [(3, 1)])"
  by code_simp

section \<open>The checks of the artifacts\<close>




lemma verifyEvidence_manifest_failure:
  assumes "readManifest env receipt runDir (manifestLimit options) = Inl failure"
  shows "verifyEvidence env receipt runDir options =
     buildResult env [failure]
       [\<lparr>type = ''receiptId'', ref = NormalizedReceipt.receiptId receipt\<rparr>,
        \<lparr>type = ''manifestSha256'', ref = manifestSha256 receipt\<rparr>]"
  using assms by (simp add: verifyEvidence_def manifestLimit_def Let_def)





text \<open>
  C5, at the input where the code departs from it. The manifest on disk declares the one
  artifact \<open>a,b\<close> and the receipt delivers the two artifacts \<open>a\<close> and \<open>b\<close>: the sorted path
  lists differ, the manifest passes its checks, both delivered artifacts are checked, and
  no failure \<open>DELIVERED_MISMATCH\<close> is recorded, because the lists are compared as strings
  joined by commas.
\<close>

theorem delivered_mismatch_missed:
  "readManifest commaEnv commaReceipt ''/run'' (manifestLimit None) = Inr commaManifest \<and>
   sortedPaths commaEnv (delivered commaReceipt) = [''a'', ''b''] \<and>
   sortedPaths commaEnv (artifacts commaManifest) = [''a,b''] \<and>
   map (\<lambda>f. (code f, path f)) (failures (verifyEvidence commaEnv commaReceipt ''/run'' None))
     = [(ARTIFACT_NOT_FOUND, Some ''a''), (ARTIFACT_NOT_FOUND, Some ''b'')]"
  by code_simp

section \<open>Schema validation\<close>

lemma ap_Inr_iff: "ap f x = Inr v \<longleftrightarrow> (\<exists>g y. f = Inr g \<and> x = Inr y \<and> v = g y)"
  by (cases f; cases x) auto

lemma ap_isl: "isl (ap f x) \<longleftrightarrow> isl f \<or> isl x"
  by (cases f; cases x) auto

lemma nonempty_ap: "nonemptyIssues f \<Longrightarrow> nonemptyIssues x \<Longrightarrow> nonemptyIssues (ap f x)"
  by (cases f; cases x) (auto simp: nonemptyIssues_def)

lemma nonempty_Inr: "nonemptyIssues (Inr v)"
  by (simp add: nonemptyIssues_def)

lemma collect_Inr_iff: "collect rs = Inr vs \<longleftrightarrow> list_all2 (\<lambda>r v. r = Inr v) rs vs"
proof (induction rs arbitrary: vs)
  case Nil
  then show ?case by auto
next
  case (Cons r rs)
  then show ?case by (cases vs) (auto simp: ap_Inr_iff)
qed

lemma collect_isl: "isl (collect rs) \<longleftrightarrow> list_ex isl rs"
  by (induction rs) (auto simp: ap_isl)

lemma nonempty_collect: "list_all nonemptyIssues rs \<Longrightarrow> nonemptyIssues (collect rs)"
  by (induction rs) (auto intro!: nonempty_ap simp: nonempty_Inr)

lemma zString_Inr: "zString x = Inr s \<longleftrightarrow> x = Some (JStr s)"
  by (auto simp: zString_def split: option.splits json.splits)

lemma zStringCheck_Inr: "zStringCheck c msg x = Inr s \<longleftrightarrow> x = Some (JStr s) \<and> c s"
  by (auto simp: zStringCheck_def split: option.splits json.splits)

lemma zOptionalString_Inr: "zOptionalString x = Inr v \<longleftrightarrow> x = map_option JStr v"
  by (cases v) (auto simp: zOptionalString_def zString_def split: option.splits json.splits)

lemma zBoolean_Inr: "zBoolean x = Inr b \<longleftrightarrow> x = Some (JBool b)"
  by (auto simp: zBoolean_def split: option.splits json.splits)

lemma zLiteral_Inr: "zLiteral v x = Inr s \<longleftrightarrow> x = Some (JStr v) \<and> s = v"
  by (auto simp: zLiteral_def)

lemma zNumber_Inr: "zNumberIntNonnegative x = Inr i \<longleftrightarrow> x = Some (JNum (of_int i)) \<and> 0 \<le> i"
  by (auto simp: zNumberIntNonnegative_def Let_def split: option.splits json.splits)

lemma zStatus_Inr: "zStatus x = Inr st \<longleftrightarrow> x = Some (JStr (Status_name st))"
  by (cases st) (auto simp: zStatus_def split: option.splits json.splits)

lemma zArray_Inr:
  "zArray el x = Inr vs \<longleftrightarrow> (\<exists>xs. x = Some (JArr xs) \<and> list_all2 (\<lambda>j v. el (Some j) = Inr v) xs vs)"
  by (auto simp: zArray_def collect_Inr_iff list_all2_map1 split: option.splits json.splits)

lemmas leaf_Inr = zString_Inr zStringCheck_Inr zOptionalString_Inr zBoolean_Inr zLiteral_Inr
  zNumber_Inr zStatus_Inr


lemma isl_iff: "isl r \<longleftrightarrow> (\<forall>v. r \<noteq> Inr v)"
  by (cases r) auto

lemma nonempty_leaf:
  "nonemptyIssues (zString x)" "nonemptyIssues (zStringCheck c msg x)"
  "nonemptyIssues (zOptionalString x)" "nonemptyIssues (zBoolean x)"
  "nonemptyIssues (zLiteral v x)" "nonemptyIssues (zNumberIntNonnegative x)"
  "nonemptyIssues (zStatus x)"
  by (auto simp: nonemptyIssues_def zString_def zStringCheck_def zOptionalString_def
      zBoolean_def zLiteral_def zNumberIntNonnegative_def zStatus_def Let_def
      split: option.splits json.splits sum.splits)

lemma nonempty_zArray:
  "(\<And>y. nonemptyIssues (el y)) \<Longrightarrow> nonemptyIssues (zArray el x)"
  by (auto simp: zArray_def nonemptyIssues_def [of "Inl _"] list_all_iff
      intro!: nonempty_collect split: option.splits json.splits)

lemma nonempty_ArtifactEntrySchema: "nonemptyIssues (ArtifactEntrySchema x)"
  by (auto simp: ArtifactEntrySchema_def nonemptyIssues_def [of "Inl _"] nonempty_leaf nonempty_Inr
      intro!: nonempty_ap split: option.splits json.splits)

lemma nonempty_PolicyDecisionSchema: "nonemptyIssues (PolicyDecisionSchema x)"
  by (auto simp: PolicyDecisionSchema_def nonemptyIssues_def [of "Inl _"] nonempty_leaf nonempty_Inr
      intro!: nonempty_ap nonempty_zArray split: option.splits json.splits)

lemma nonempty_ExecutionSummarySchema: "nonemptyIssues (ExecutionSummarySchema x)"
  by (auto simp: ExecutionSummarySchema_def nonemptyIssues_def [of "Inl _"] nonempty_leaf nonempty_Inr
      intro!: nonempty_ap split: option.splits json.splits)

lemma nonempty_SolverMetadataSchema: "nonemptyIssues (SolverMetadataSchema x)"
  by (auto simp: SolverMetadataSchema_def nonemptyIssues_def [of "Inl _"] nonempty_leaf nonempty_Inr
      intro!: nonempty_ap split: option.splits json.splits)

lemma nonempty_SolverReceiptV0Schema: "nonemptyIssues (SolverReceiptV0Schema dt x)"
  by (auto simp: SolverReceiptV0Schema_def nonemptyIssues_def [of "Inl _"] nonempty_leaf nonempty_Inr
      nonempty_ArtifactEntrySchema nonempty_PolicyDecisionSchema nonempty_ExecutionSummarySchema
      nonempty_SolverMetadataSchema
      intro!: nonempty_ap nonempty_zArray split: option.splits json.splits)

lemma ArtifactEntrySchema_Inr:
  assumes "ArtifactEntrySchema (Some j) = Inr a"
  shows "artifactReflects j a \<and> sha256Pattern (sha256 a) \<and> 0 \<le> bytes a"
  using assms
  by (auto simp: ArtifactEntrySchema_def artifactReflects_def field_def ap_Inr_iff leaf_Inr
      split: json.splits)

lemma artifacts_Inr:
  assumes "list_all2 (\<lambda>j v. ArtifactEntrySchema (Some j) = Inr v) xs vs"
  shows "list_all2 artifactReflects xs vs \<and> list_all (\<lambda>a. sha256Pattern (sha256 a) \<and> 0 \<le> bytes a) vs"
  using assms
  by (induction rule: list_all2_induct) (auto dest: ArtifactEntrySchema_Inr)

lemma strings_Inr:
  "list_all2 (\<lambda>j v. j = JStr v) xs vs \<Longrightarrow> xs = map JStr vs"
  by (induction rule: list_all2_induct) auto

lemma PolicyDecisionSchema_Inr:
  assumes "PolicyDecisionSchema x = Inr p"
  shows "\<exists>j. x = Some j \<and> field j ''allowed'' = Some (JBool (allowed p)) \<and>
         field j ''reasons'' = Some (JArr (map JStr (reasons p)))"
  using assms
  by (auto simp: PolicyDecisionSchema_def field_def ap_Inr_iff leaf_Inr zArray_Inr
      dest: strings_Inr split: option.splits json.splits)

lemma ExecutionSummarySchema_Inr:
  assumes "ExecutionSummarySchema x = Inr e"
  shows "\<exists>j. x = Some j \<and>
         field j ''status'' = Some (JStr (Status_name (ExecutionSummary.status e))) \<and>
         field j ''error'' = map_option JStr (error e)"
  using assms
  by (auto simp: ExecutionSummarySchema_def field_def ap_Inr_iff leaf_Inr
      split: option.splits json.splits)

lemma SolverMetadataSchema_Inr:
  assumes "SolverMetadataSchema x = Inr s"
  shows "\<exists>j. x = Some j \<and> service s = ''irsb-solver'' \<and>
         field j ''service'' = Some (JStr (service s)) \<and>
         field j ''serviceVersion'' = Some (JStr (serviceVersion s)) \<and>
         field j ''gitCommit'' = map_option JStr (gitCommit s)"
  using assms
  by (auto simp: SolverMetadataSchema_def field_def ap_Inr_iff leaf_Inr
      split: option.splits json.splits)

lemma SolverReceiptV0Schema_Inr:
  assumes "SolverReceiptV0Schema dt (Some d) = Inr m"
  shows "conformsContract dt m \<and> reflects d m"
proof -
  from assms obtain kvs where d: "d = JObj kvs"
    by (auto simp: SolverReceiptV0Schema_def split: json.splits)
  from assms [unfolded d SolverReceiptV0Schema_def]
  have v: "map_of kvs ''manifestVersion'' = Some (JStr ''0.1.0'')" "manifestVersion m = ''0.1.0''"
    and i: "map_of kvs ''intentId'' = Some (JStr (SolverReceiptV0.intentId m))"
    and r: "map_of kvs ''runId'' = Some (JStr (SolverReceiptV0.runId m))"
    and j: "map_of kvs ''jobType'' = Some (JStr (SolverReceiptV0.jobType m))"
    and c: "map_of kvs ''createdAt'' = Some (JStr (createdAt m))" "dt (createdAt m)"
    and a: "zArray ArtifactEntrySchema (map_of kvs ''artifacts'') = Inr (artifacts m)"
    and p: "PolicyDecisionSchema (map_of kvs ''policyDecision'') = Inr (policyDecision m)"
    and e: "ExecutionSummarySchema (map_of kvs ''executionSummary'') = Inr (executionSummary m)"
    and s: "SolverMetadataSchema (map_of kvs ''solver'') = Inr (solver m)"
    by (auto simp: ap_Inr_iff leaf_Inr)
  from a obtain xs where xs: "map_of kvs ''artifacts'' = Some (JArr xs)"
    and all: "list_all2 (\<lambda>j v. ArtifactEntrySchema (Some j) = Inr v) xs (artifacts m)"
    by (auto simp: zArray_Inr)
  note arts = artifacts_Inr [OF all]
  note pd = PolicyDecisionSchema_Inr [OF p]
  note es = ExecutionSummarySchema_Inr [OF e]
  note so = SolverMetadataSchema_Inr [OF s]
  have "conformsContract dt m"
    using v c arts so by (auto simp: conformsContract_def)
  moreover have "reflects d m"
    using v i r j c xs arts pd es so by (auto simp: reflects_def d field_def)
  ultimately show ?thesis by simp
qed

lemma artifactDeviates_rejected: "artifactDeviates j \<Longrightarrow> isl (ArtifactEntrySchema (Some j))"
  by (auto simp: artifactDeviates_def ArtifactEntrySchema_def field_def isl_iff ap_Inr_iff leaf_Inr
      split: json.splits option.splits)

lemma listedDeviation_rejected:
  assumes "listedDeviation d"
  shows "isl (SolverReceiptV0Schema dt (Some d))"
proof (rule ccontr)
  assume "\<not> isl (SolverReceiptV0Schema dt (Some d))"
  then obtain m where m: "SolverReceiptV0Schema dt (Some d) = Inr m"
    by (auto simp: isl_iff)
  then obtain kvs where d: "d = JObj kvs"
    by (auto simp: SolverReceiptV0Schema_def split: json.splits)
  from m [unfolded d SolverReceiptV0Schema_def]
  have v: "map_of kvs ''manifestVersion'' = Some (JStr ''0.1.0'')"
    and a: "zArray ArtifactEntrySchema (map_of kvs ''artifacts'') = Inr (artifacts m)"
    and e: "ExecutionSummarySchema (map_of kvs ''executionSummary'') = Inr (executionSummary m)"
    and s: "SolverMetadataSchema (map_of kvs ''solver'') = Inr (solver m)"
    by (auto simp: ap_Inr_iff leaf_Inr)
  from a obtain xs where xs: "map_of kvs ''artifacts'' = Some (JArr xs)"
    and all: "list_all2 (\<lambda>j v. ArtifactEntrySchema (Some j) = Inr v) xs (artifacts m)"
    by (auto simp: zArray_Inr)
  have noart: "\<not> list_ex artifactDeviates xs"
  proof
    assume "list_ex artifactDeviates xs"
    then obtain j where j: "j \<in> set xs" "artifactDeviates j" by (auto simp: list_ex_iff)
    from j(1) all obtain w where "ArtifactEntrySchema (Some j) = Inr w"
      by (auto simp: list_all2_conv_all_nth in_set_conv_nth)
    with artifactDeviates_rejected [OF j(2)] show False by simp
  qed
  from ExecutionSummarySchema_Inr [OF e] SolverMetadataSchema_Inr [OF s] v xs noart assms
  show False
    by (cases "ExecutionSummary.status (executionSummary m)")
       (auto simp: listedDeviation_def d field_def)
qed

text \<open>
  C3. For every document, validation returns either a manifest that conforms to the
  contract and holds, field by field, what the document holds, or a rejection with at
  least one issue; and every document with one of the listed deviations (the version
  literal, the pattern of a hash, a size that is negative or not an integer, the status,
  the service literal) is rejected.
\<close>

theorem schema_all_or_nothing:
  "(case SolverReceiptV0Schema dt (Some d) of
      Inl issues \<Rightarrow> issues \<noteq> []
    | Inr m \<Rightarrow> conformsContract dt m \<and> reflects d m) \<and>
   (listedDeviation d \<longrightarrow> isl (SolverReceiptV0Schema dt (Some d)))"
proof
  show "case SolverReceiptV0Schema dt (Some d) of
      Inl issues \<Rightarrow> issues \<noteq> []
    | Inr m \<Rightarrow> conformsContract dt m \<and> reflects d m"
    using nonempty_SolverReceiptV0Schema [of dt "Some d"] SolverReceiptV0Schema_Inr [of dt d]
    by (auto simp: nonemptyIssues_def split: sum.splits)
  show "listedDeviation d \<longrightarrow> isl (SolverReceiptV0Schema dt (Some d))"
    using listedDeviation_rejected by blast
qed

theorem schema_all_or_nothing_witness:
  "SolverReceiptV0Schema (isDatetime exampleEnv) (Some exampleDoc) = Inr exampleManifest \<and>
   conformsContract (isDatetime exampleEnv) exampleManifest \<and>
   reflects exampleDoc exampleManifest \<and>
   listedDeviation exampleBadDoc \<and>
   isl (SolverReceiptV0Schema (isDatetime exampleEnv) (Some exampleBadDoc))"
proof -
  have p: "SolverReceiptV0Schema (isDatetime exampleEnv) (Some exampleDoc) = Inr exampleManifest"
    by code_simp
  have b: "listedDeviation exampleBadDoc"
    by code_simp
  from p schema_all_or_nothing [of "isDatetime exampleEnv" exampleDoc]
  have "conformsContract (isDatetime exampleEnv) exampleManifest \<and> reflects exampleDoc exampleManifest"
    by simp
  moreover from b schema_all_or_nothing [of "isDatetime exampleEnv" exampleBadDoc]
  have "isl (SolverReceiptV0Schema (isDatetime exampleEnv) (Some exampleBadDoc))"
    by simp
  ultimately show ?thesis using p b by simp
qed

section \<open>The receipt id\<close>

lemma rel_None: "rel_option sameData None y \<longleftrightarrow> y = None"
  by (cases y) auto

lemma sameData_typeName:
  "rel_option sameData x y \<Longrightarrow> typeName x = typeName y"
  by (cases x; cases y) (auto simp: typeName_def elim: sameData.cases)

lemma sameData_invalidType:
  "rel_option sameData x y \<Longrightarrow> invalidType e x = invalidType e y"
  using sameData_typeName [of x y] by (cases x; cases y) (auto simp: invalidType_def)

lemma sameData_leaf:
  assumes "rel_option sameData x y"
  shows "zString x = zString y" "zStringCheck c msg x = zStringCheck c msg y"
    "zOptionalString x = zOptionalString y" "zBoolean x = zBoolean y"
    "zLiteral v x = zLiteral v y" "zNumberIntNonnegative x = zNumberIntNonnegative y"
    "zStatus x = zStatus y"
  using assms sameData_invalidType [OF assms]
  by (cases x; cases y;
      auto simp: zString_def zStringCheck_def zOptionalString_def zBoolean_def zLiteral_def
        zNumberIntNonnegative_def zStatus_def elim: sameData.cases)+

lemma sameData_zArray:
  assumes "rel_option sameData x y"
    and "\<And>u v. sameData u v \<Longrightarrow> el (Some u) = el (Some v)"
  shows "zArray el x = zArray el y"
proof (cases x)
  case None
  with assms(1) show ?thesis by (cases y) auto
next
  case (Some u)
  with assms(1) obtain v where y: "y = Some v" and uv: "sameData u v"
    by (cases y) auto
  from uv show ?thesis
  proof (cases rule: sameData.cases)
    case (sameArr xs ys)
    from sameArr(3) have "map (\<lambda>v. el (Some v)) xs = map (\<lambda>v. el (Some v)) ys"
      by (induction rule: list_all2_induct) (auto simp: assms(2))
    with sameArr Some y show ?thesis by (simp add: zArray_def)
  qed (simp_all add: Some y zArray_def invalidType_def typeName_def)
qed


lemma sameData_ArtifactEntrySchema:
  assumes "sameData u v"
  shows "ArtifactEntrySchema (Some u) = ArtifactEntrySchema (Some v)"
  using assms
proof (cases rule: sameData.cases)
  case (sameObj kvs kvs')
  then show ?thesis
    by (simp add: ArtifactEntrySchema_def sameData_leaf [OF sameObj(3)])
qed (simp_all add: ArtifactEntrySchema_def invalidType_def typeName_def)

lemma sameData_PolicyDecisionSchema:
  assumes "rel_option sameData x y"
  shows "PolicyDecisionSchema x = PolicyDecisionSchema y"
proof (cases x)
  case None
  with assms show ?thesis by (cases y) auto
next
  case (Some u)
  with assms obtain v where y: "y = Some v" and uv: "sameData u v"
    by (cases y) auto
  from uv show ?thesis
  proof (cases rule: sameData.cases)
    case (sameObj kvs kvs')
    have "zArray zString (map_of kvs ''reasons'') = zArray zString (map_of kvs' ''reasons'')"
      by (rule sameData_zArray [OF sameObj(3)]) (rule sameData_leaf(1), simp)
    with sameObj show ?thesis
      by (simp add: Some y PolicyDecisionSchema_def sameData_leaf [OF sameObj(3)])
  qed (simp_all add: Some y PolicyDecisionSchema_def invalidType_def typeName_def)
qed

lemma sameData_ExecutionSummarySchema:
  assumes "rel_option sameData x y"
  shows "ExecutionSummarySchema x = ExecutionSummarySchema y"
proof (cases x)
  case None
  with assms show ?thesis by (cases y) auto
next
  case (Some u)
  with assms obtain v where y: "y = Some v" and uv: "sameData u v"
    by (cases y) auto
  from uv show ?thesis
  proof (cases rule: sameData.cases)
    case (sameObj kvs kvs')
    then show ?thesis
      by (simp add: Some y ExecutionSummarySchema_def sameData_leaf [OF sameObj(3)])
  qed (simp_all add: Some y ExecutionSummarySchema_def invalidType_def typeName_def)
qed

lemma sameData_SolverMetadataSchema:
  assumes "rel_option sameData x y"
  shows "SolverMetadataSchema x = SolverMetadataSchema y"
proof (cases x)
  case None
  with assms show ?thesis by (cases y) auto
next
  case (Some u)
  with assms obtain v where y: "y = Some v" and uv: "sameData u v"
    by (cases y) auto
  from uv show ?thesis
  proof (cases rule: sameData.cases)
    case (sameObj kvs kvs')
    then show ?thesis
      by (simp add: Some y SolverMetadataSchema_def sameData_leaf [OF sameObj(3)])
  qed (simp_all add: Some y SolverMetadataSchema_def invalidType_def typeName_def)
qed

lemma sameData_SolverReceiptV0Schema:
  assumes "sameData d d'"
  shows "SolverReceiptV0Schema dt (Some d) = SolverReceiptV0Schema dt (Some d')"
  using assms
proof (cases rule: sameData.cases)
  case (sameObj kvs kvs')
  have "zArray ArtifactEntrySchema (map_of kvs ''artifacts'')
          = zArray ArtifactEntrySchema (map_of kvs' ''artifacts'')"
    by (rule sameData_zArray [OF sameObj(3)]) (rule sameData_ArtifactEntrySchema)
  with sameObj show ?thesis
    by (simp add: SolverReceiptV0Schema_def sameData_leaf [OF sameObj(3)]
        sameData_PolicyDecisionSchema [OF sameObj(3)]
        sameData_ExecutionSummarySchema [OF sameObj(3)]
        sameData_SolverMetadataSchema [OF sameObj(3)])
qed (simp_all add: SolverReceiptV0Schema_def invalidType_def typeName_def)

lemma receiptId_formula:
  "NormalizedReceipt.receiptId (normalizeReceipt env m h) =
     sha256Hex env
       (''{'' @ quote ''intentId'' @ '':'' @ quote (SolverReceiptV0.intentId m) @ '',''
             @ quote ''jobType'' @ '':'' @ quote (SolverReceiptV0.jobType m) @ '',''
             @ quote ''manifestSha256'' @ '':'' @ quote h @ '',''
             @ quote ''runId'' @ '':'' @ quote (SolverReceiptV0.runId m) @ ''}'')"
  by (simp add: normalizeReceipt_def canonicalJson_def Let_def)


lemma sameObjI:
  assumes "set (map fst kvs) = set (map fst kvs')"
    and "\<And>k. k \<in> set (map fst kvs) \<Longrightarrow> rel_option sameData (map_of kvs k) (map_of kvs' k)"
  shows "sameData (JObj kvs) (JObj kvs')"
proof (rule sameObj)
  fix k
  show "rel_option sameData (map_of kvs k) (map_of kvs' k)"
  proof (cases "k \<in> set (map fst kvs)")
    case True
    then show ?thesis by (rule assms(2))
  next
    case False
    then have "map_of kvs k = None" by (simp add: map_of_eq_None_iff)
    moreover from False assms(1) have "map_of kvs' k = None" by (simp add: map_of_eq_None_iff)
    ultimately show ?thesis by simp
  qed
qed

lemmas sameLeaf = sameNull sameBool sameNum sameStr

lemma sameData_example: "sameData exampleDoc exampleDocReversed"
proof -
  have art: "sameData
      (JObj [(''path'', JStr ''artifacts/report.txt''),
             (''sha256'', JStr (replicate 64 CHR ''a'')),
             (''bytes'', JNum 5),
             (''contentType'', JStr ''text/plain'')])
      (JObj [(''contentType'', JStr ''text/plain''),
             (''bytes'', JNum 5),
             (''sha256'', JStr (replicate 64 CHR ''a'')),
             (''path'', JStr ''artifacts/report.txt'')])"
    by (rule sameObjI) (auto simp: sameLeaf)
  have pol: "sameData
      (JObj [(''allowed'', JBool True), (''reasons'', JArr [])])
      (JObj [(''reasons'', JArr []), (''allowed'', JBool True)])"
    by (rule sameObjI) (auto simp: sameLeaf intro: sameArr)
  have ex: "sameData (JObj [(''status'', JStr ''SUCCESS'')]) (JObj [(''status'', JStr ''SUCCESS'')])"
    by (rule sameObjI) (auto simp: sameLeaf)
  have sol: "sameData
      (JObj [(''service'', JStr ''irsb-solver''), (''serviceVersion'', JStr ''1.0.0'')])
      (JObj [(''serviceVersion'', JStr ''1.0.0''), (''service'', JStr ''irsb-solver'')])"
    by (rule sameObjI) (auto simp: sameLeaf)
  have arts: "sameData
      (JArr [JObj [(''path'', JStr ''artifacts/report.txt''),
             (''sha256'', JStr (replicate 64 CHR ''a'')),
             (''bytes'', JNum 5),
             (''contentType'', JStr ''text/plain'')]])
      (JArr [JObj [(''contentType'', JStr ''text/plain''),
             (''bytes'', JNum 5),
             (''sha256'', JStr (replicate 64 CHR ''a'')),
             (''path'', JStr ''artifacts/report.txt'')]])"
    by (rule sameArr) (simp add: art)
  show ?thesis
    unfolding exampleDoc_def exampleDocReversed_def
    by (rule sameObjI) (auto simp: sameLeaf arts pol ex sol)
qed

text \<open>
  C6. Two documents that hold the same data, whatever the order of the keys of their
  objects at any nesting level, validate to the same result, hence normalize with the
  same hash to the same receipt id; and the receipt id of a manifest is the digest of the
  serialization of \<open>{intentId, runId, jobType, manifestSha256}\<close> with the keys in
  lexicographic order and no whitespace. As a function of the manifest and the hash,
  \<open>normalizeReceipt\<close> gives the same id each time it is called.
\<close>

theorem receiptId_deterministic:
  assumes "sameData d d'"
  shows "SolverReceiptV0Schema dt (Some d) = SolverReceiptV0Schema dt (Some d') \<and>
         map_sum id (\<lambda>m. NormalizedReceipt.receiptId (normalizeReceipt env m h))
             (SolverReceiptV0Schema dt (Some d))
           = map_sum id (\<lambda>m. NormalizedReceipt.receiptId (normalizeReceipt env m h))
               (SolverReceiptV0Schema dt (Some d')) \<and>
         NormalizedReceipt.receiptId (normalizeReceipt env m h) =
           sha256Hex env
             (''{'' @ quote ''intentId'' @ '':'' @ quote (SolverReceiptV0.intentId m) @ '',''
                   @ quote ''jobType'' @ '':'' @ quote (SolverReceiptV0.jobType m) @ '',''
                   @ quote ''manifestSha256'' @ '':'' @ quote h @ '',''
                   @ quote ''runId'' @ '':'' @ quote (SolverReceiptV0.runId m) @ ''}'')"
  using sameData_SolverReceiptV0Schema [OF assms, of dt] receiptId_formula [of env m h]
  by simp

theorem receiptId_deterministic_witness:
  "sameData exampleDoc exampleDocReversed \<and>
   SolverReceiptV0Schema (isDatetime exampleEnv) (Some exampleDocReversed) = Inr exampleManifest \<and>
   map_sum id (\<lambda>m. NormalizedReceipt.receiptId
                      (normalizeReceipt exampleEnv m (exampleDigest exampleManifestText)))
       (SolverReceiptV0Schema (isDatetime exampleEnv) (Some exampleDocReversed))
     = Inr (NormalizedReceipt.receiptId
              (normalizeReceipt exampleEnv exampleManifest (exampleDigest exampleManifestText)))"
proof -
  have p: "SolverReceiptV0Schema (isDatetime exampleEnv) (Some exampleDoc) = Inr exampleManifest"
    by code_simp
  from p receiptId_deterministic [OF sameData_example, of "isDatetime exampleEnv" exampleEnv
      "exampleDigest exampleManifestText" exampleManifest]
  show ?thesis using sameData_example by simp
qed

section \<open>The snapshot id\<close>

lemma snapshotId_is_digest:
  "map_sum id (\<lambda>rs. IngestResult.snapshotId (fst rs)) (ingestReceipt env now a p rd)
     = map_sum id (\<lambda>rs. sha256Hex env (snapshotIdInput a (signals (snd rs))))
         (ingestReceipt env now a p rd)"
  by (simp add: ingestReceipt_def Let_def split: sum.splits prod.splits)

text \<open>
  C1, at the input where the code departs from it. Two calls of \<open>ingestReceipt\<close> for the
  same agent on the same files, one second apart, both return, and the texts they hash
  into the snapshot id differ: each signal is serialized with its \<open>observedAt\<close>.
\<close>

theorem snapshotId_depends_on_observedAt:
  "ingestSnapshotIdInput exampleEnv 1000 ''solver-alpha'' ''/run/evidence/manifest.json'' None
     \<noteq> None \<and>
   ingestSnapshotIdInput exampleEnv 2000 ''solver-alpha'' ''/run/evidence/manifest.json'' None
     \<noteq> None \<and>
   ingestSnapshotIdInput exampleEnv 1000 ''solver-alpha'' ''/run/evidence/manifest.json'' None
     \<noteq> ingestSnapshotIdInput exampleEnv 2000 ''solver-alpha'' ''/run/evidence/manifest.json'' None"
proof -
  have "case (ingestSnapshotIdInput exampleEnv 1000 ''solver-alpha''
                ''/run/evidence/manifest.json'' None,
              ingestSnapshotIdInput exampleEnv 2000 ''solver-alpha''
                ''/run/evidence/manifest.json'' None) of
          (Some x, Some y) \<Rightarrow> x \<noteq> y
        | _ \<Rightarrow> False"
    by code_simp
  then show ?thesis by (auto split: option.splits)
qed

end
